theory Spec2Isabelle
  imports Main "HOL-Library.Sublist"
begin

section \<open>Values shared by the runner and the event poller\<close>

text \<open>
  \<^verbatim>\<open>lib/utils/utilities.js\<close>: the platform identifiers and the two test verdicts.
\<close>

definition ANDROID :: string where "ANDROID = ''android''"
definition IOS :: string where "IOS = ''ios''"
definition WINDOWS :: string where "WINDOWS = ''windows''"
definition BROWSER :: string where "BROWSER = ''browser''"

definition TEST_PASSED :: bool where "TEST_PASSED = True"
definition TEST_FAILED :: bool where "TEST_FAILED = False"

definition PARAMEDIC_COMMON_ARGS :: "string list" where
  "PARAMEDIC_COMMON_ARGS = [''--no-telemetry'', ''--no-update-notifier'']"

text \<open>\<^verbatim>\<open>Array.prototype.join\<close> on an array of strings.\<close>

fun join :: "string \<Rightarrow> string list \<Rightarrow> string" where
  "join sep [] = []"
| "join sep [x] = x"
| "join sep (x # y # ys) = x @ sep @ join sep (y # ys)"

text \<open>
  Every error the modelled code raises itself has a constructor of its own; \<open>Failure\<close>
  is an error raised by a collaborator outside the repository (a CLI, the driver, the
  device farm), named by its message. \<open>Wrapped e\<close> is \<^verbatim>\<open>new Error(e)\<close>;
  \<open>NullTempFolder\<close>, \<open>NullServer\<close> and \<open>NullSauceLabs\<close> are the TypeErrors of
  \<^verbatim>\<open>this.tempFolder.name\<close> on a \<^verbatim>\<open>null\<close> folder and of a method call on an unassigned
  \<^verbatim>\<open>this.server\<close> or on a \<^verbatim>\<open>this.paramedicSauceLabs\<close> that is still \<^verbatim>\<open>null\<close>;
  \<open>CommandFailed\<close> carries the exit code of a launched command.
\<close>

datatype error =
    NoTestsToRun
  | TimedOut nat
  | Wrapped error
  | NullTempFolder
  | NoLocalDeviceName
  | WaitForConnectionNotConnected
  | WaitForTestsNotConnected
  | DeviceDisconnected
  | CannotFindWindow
  | CannotGetEventCache string
  | NullServer
  | NullSauceLabs
  | CommandFailed nat
  | Failure string

section \<open>Promises\<close>

text \<open>
  A promise of the Q library is pending or settled, and settles at most once:
  \<^verbatim>\<open>resolve\<close> and \<^verbatim>\<open>reject\<close> on a settled promise do nothing.
\<close>

datatype 'a promise = Pending | Fulfilled 'a | Rejected error

fun resolve :: "'a \<Rightarrow> 'a promise \<Rightarrow> 'a promise" where
  "resolve v Pending = Fulfilled v"
| "resolve v p = p"

fun reject :: "error \<Rightarrow> 'a promise \<Rightarrow> 'a promise" where
  "reject e Pending = Rejected e"
| "reject e p = p"

section \<open>The reporting channel and the two waits of the runner\<close>

text \<open>
  The payload of \<^verbatim>\<open>jasmineDone\<close> is \<^verbatim>\<open>{ specResults: { specFailed: integer } }\<close>.
\<close>

record specResults_t =
  specFailed :: int

record payload =
  specResults :: specResults_t

text \<open>
  What the event loop delivers to the listeners of \<^verbatim>\<open>waitForConnection\<close> and
  \<^verbatim>\<open>waitForTests\<close>, one callback at a time. Each of the two functions sets a timer of
  \<^verbatim>\<open>INITIAL_CONNECTION_TIMEOUT\<close>; the flag of a timer event is what
  \<^verbatim>\<open>server.isDeviceConnected()\<close> answers when the callback runs.
\<close>

datatype channel_event =
    ConnectionTimer bool
  | TestsTimer bool
  | JasmineDone payload
  | Disconnect
  | OtherEvent string

definition INITIAL_CONNECTION_TIMEOUT :: nat where
  "INITIAL_CONNECTION_TIMEOUT = 540000"

text \<open>\<^verbatim>\<open>waitForTests\<close>: the three callbacks it registers, acting on its promise.\<close>

fun waitForTests_on :: "channel_event \<Rightarrow> bool promise \<Rightarrow> bool promise" where
  "waitForTests_on (TestsTimer connected) p =
     (if \<not> connected then reject WaitForTestsNotConnected p else p)"
| "waitForTests_on (JasmineDone data) p = resolve (specFailed (specResults data) = 0) p"
| "waitForTests_on Disconnect p = reject DeviceDisconnected p"
| "waitForTests_on (ConnectionTimer connected) p = p"
| "waitForTests_on (OtherEvent name) p = p"

definition waitForTests :: "channel_event list \<Rightarrow> bool promise" where
  "waitForTests evs = foldl (\<lambda>p e. waitForTests_on e p) Pending evs"

text \<open>\<^verbatim>\<open>waitForConnection\<close>: its timer resolves or rejects; nothing else touches it.\<close>

fun waitForConnection_on :: "channel_event \<Rightarrow> unit promise \<Rightarrow> unit promise" where
  "waitForConnection_on (ConnectionTimer connected) p =
     (if \<not> connected then reject WaitForConnectionNotConnected p else resolve () p)"
| "waitForConnection_on e p = p"

definition waitForConnection :: "channel_event list \<Rightarrow> unit promise" where
  "waitForConnection evs = foldl (\<lambda>p e. waitForConnection_on e p) Pending evs"

text \<open>
  The race of \<^verbatim>\<open>runLocalTests\<close>:
  \<^verbatim>\<open>Q.promise((resolve, reject) => { this.waitForConnection().catch(reject);
  this.waitForTests().then(resolve); })\<close>.
  A rejection of \<^verbatim>\<open>waitForConnection\<close> rejects the race, a fulfilment of
  \<^verbatim>\<open>waitForTests\<close> resolves it; \<^verbatim>\<open>.then(resolve)\<close> has no rejection handler.
\<close>

record race =
  connection :: "unit promise"
  tests :: "bool promise"
  outer :: "bool promise"

definition race_start :: race where
  "race_start = \<lparr>connection = Pending, tests = Pending, outer = Pending\<rparr>"

definition race_on :: "channel_event \<Rightarrow> race \<Rightarrow> race" where
  "race_on e r =
     (let c = waitForConnection_on e (connection r);
          t = waitForTests_on e (tests r);
          o1 = (case c of Rejected err \<Rightarrow> reject err (outer r) | _ \<Rightarrow> outer r);
          o2 = (case t of Fulfilled b \<Rightarrow> resolve b o1 | _ \<Rightarrow> o1)
      in \<lparr>connection = c, tests = t, outer = o2\<rparr>)"

definition waitForTestResult :: "channel_event list \<Rightarrow> bool promise" where
  "waitForTestResult evs = outer (foldl (\<lambda>r e. race_on e r) race_start evs)"

text \<open>The events that leave a pending wait of \<^verbatim>\<open>waitForTests\<close> pending: all but
  \<^verbatim>\<open>jasmineDone\<close>, \<^verbatim>\<open>disconnect\<close> and its timer expiring with no device connected.\<close>

fun leaves_tests_pending :: "channel_event \<Rightarrow> bool" where
  "leaves_tests_pending (TestsTimer connected) = connected"
| "leaves_tests_pending (JasmineDone data) = False"
| "leaves_tests_pending Disconnect = False"
| "leaves_tests_pending e = True"

section \<open>The event poller\<close>

text \<open>
  \<^verbatim>\<open>lib/appium/helpers/wdHelper.js\<close>. The automation session is a remote driver. Its
  state, as far as \<^verbatim>\<open>pollForEvents\<close> can see it: the open window handles, the window
  the session is switched to, and per window what the page global
  \<^verbatim>\<open>window._jasmineParamedicProxyCache\<close> holds: nothing (\<^verbatim>\<open>undefined\<close>), an array of
  event records, or a value that is no array (given by the text string concatenation
  makes of it).
\<close>

datatype cache = Undefined | Holds "string list" | HoldsOther string

record driver =
  windowHandles :: "string list"
  currentWindow :: string
  proxyCache :: "string \<Rightarrow> cache"

text \<open>
  Two driver commands whose effect lies outside the poller are parameters:
  \<^verbatim>\<open>driver.bustAlert(platform)\<close>, which dismisses a native dialog, and
  \<^verbatim>\<open>driver.get(url)\<close>, which loads a page. Either answers with an error or with the
  state it leaves the session in.
\<close>

record remote =
  bustAlert :: "string \<Rightarrow> driver \<Rightarrow> error + driver"
  get :: "string \<Rightarrow> driver \<Rightarrow> error + driver"

text \<open>
  What the script passed to \<^verbatim>\<open>.execute\<close> returns, after
  \<^verbatim>\<open>if (result) { result = JSON.parse(result); }\<close>: \<^verbatim>\<open>null\<close> when the cache global is
  absent, else the former content of the cache, which the script has replaced by \<^verbatim>\<open>[]\<close>.
\<close>

datatype reading = Null | EventArray "string list" | Other string

definition executeRead :: "driver \<Rightarrow> reading \<times> driver" where
  "executeRead d =
     (case proxyCache d (currentWindow d) of
        Undefined \<Rightarrow> (Null, d)
      | Holds evs \<Rightarrow>
          (EventArray evs, d\<lparr>proxyCache := (proxyCache d)(currentWindow d := Holds [])\<rparr>)
      | HoldsOther v \<Rightarrow>
          (Other v, d\<lparr>proxyCache := (proxyCache d)(currentWindow d := Holds [])\<rparr>))"

text \<open>The text \<^verbatim>\<open>'...' + result\<close> appends for a reading.\<close>

fun text_of :: "reading \<Rightarrow> string" where
  "text_of Null = ''null''"
| "text_of (EventArray evs) = join '','' evs"
| "text_of (Other v) = v"

definition BASE_TEST_PAGE :: string where
  "BASE_TEST_PAGE = ''http://localhost:8000/cdvtests/index.html''"

text \<open>
  The first two \<^verbatim>\<open>.then\<close> stages of \<^verbatim>\<open>pollForEvents\<close>: the optional
  \<^verbatim>\<open>bustAlert\<close>, then, unless the platform is iOS or the browser, the switch to the
  window at \<^verbatim>\<open>windowOffset\<close>.
\<close>

definition maybeBustAlert :: "remote \<Rightarrow> string \<Rightarrow> bool \<Rightarrow> driver \<Rightarrow> error + driver" where
  "maybeBustAlert rem platform skipBuster d =
     (if skipBuster then Inr d else bustAlert rem platform d)"

definition switchWindow :: "string \<Rightarrow> nat \<Rightarrow> driver \<Rightarrow> error + driver" where
  "switchWindow platform windowOffset d =
     (if platform = IOS \<or> platform = BROWSER then Inr d
      else if windowOffset \<ge> length (windowHandles d) then Inl CannotFindWindow
      else Inr (d\<lparr>currentWindow := windowHandles d ! windowOffset\<rparr>))"

definition beforeRead ::
  "remote \<Rightarrow> string \<Rightarrow> bool \<Rightarrow> nat \<Rightarrow> driver \<Rightarrow> error + driver" where
  "beforeRead rem platform skipBuster windowOffset d =
     (case maybeBustAlert rem platform skipBuster d of
        Inl e \<Rightarrow> Inl e
      | Inr d1 \<Rightarrow> switchWindow platform windowOffset d1)"

text \<open>
  How one call of \<^verbatim>\<open>pollForEvents\<close> ends: its promise resolves with the events, it
  rejects, or it becomes the promise of a further call
  \<^verbatim>\<open>module.exports.pollForEvents(driver, platform, skipBuster, windowOffset, retries)\<close>
  with the arguments given (\<open>None\<close> is an argument left out).
\<close>

datatype poll_end =
    Return "string list" driver
  | Throw error
  | Recurse driver string bool "nat option" "int option"

text \<open>The last \<^verbatim>\<open>.then\<close> stage: what is done with the result of the read.\<close>

definition afterRead ::
  "remote \<Rightarrow> string \<Rightarrow> bool \<Rightarrow> nat \<Rightarrow> int \<Rightarrow> reading \<times> driver \<Rightarrow> poll_end" where
  "afterRead rem platform skipBuster windowOffset retries rd =
     (case rd of (result, d) \<Rightarrow>
        (case result of
           EventArray evs \<Rightarrow> Return evs d
         | _ \<Rightarrow>
            if platform = BROWSER \<and> retries > 0 then
              (case get rem BASE_TEST_PAGE d of
                 Inl e \<Rightarrow> Throw e
               | Inr d' \<Rightarrow> Recurse d' platform skipBuster (Some windowOffset) (Some (retries - 1)))
            else if platform \<noteq> ANDROID then Throw (CannotGetEventCache (text_of result))
            else Recurse d platform skipBuster (Some (windowOffset + 1)) None))"

text \<open>
  The defaults: \<^verbatim>\<open>if (retries === undefined || retries === null) retries = 2;\<close> and
  \<^verbatim>\<open>if (!windowOffset) windowOffset = 0;\<close>.
\<close>

fun retries_or_default :: "int option \<Rightarrow> int" where
  "retries_or_default None = 2"
| "retries_or_default (Some r) = r"

fun windowOffset_or_0 :: "nat option \<Rightarrow> nat" where
  "windowOffset_or_0 None = 0"
| "windowOffset_or_0 (Some w) = w"

definition pollForEvents_call ::
  "remote \<Rightarrow> driver \<Rightarrow> string \<Rightarrow> bool \<Rightarrow> nat option \<Rightarrow> int option \<Rightarrow> poll_end" where
  "pollForEvents_call rem d platform skipBuster windowOffset retries =
     (case beforeRead rem platform skipBuster (windowOffset_or_0 windowOffset) d of
        Inl e \<Rightarrow> Throw e
      | Inr d2 \<Rightarrow>
          afterRead rem platform skipBuster (windowOffset_or_0 windowOffset)
            (retries_or_default retries) (executeRead d2))"

text \<open>
  \<^verbatim>\<open>pollForEvents\<close> itself: the call, followed through its recursive calls. Nothing in
  the function bounds their number, so the result is an option: \<open>None\<close> when the calls
  never end.
\<close>

partial_function (option) pollForEvents ::
  "remote \<Rightarrow> driver \<Rightarrow> string \<Rightarrow> bool \<Rightarrow> nat option \<Rightarrow> int option
     \<Rightarrow> (error + string list \<times> driver) option" where
  "pollForEvents rem d platform skipBuster windowOffset retries =
     (case pollForEvents_call rem d platform skipBuster windowOffset retries of
        Return evs d' \<Rightarrow> Some (Inr (evs, d'))
      | Throw e \<Rightarrow> Some (Inl e)
      | Recurse d' platform' skipBuster' windowOffset' retries' \<Rightarrow>
          pollForEvents rem d' platform' skipBuster' windowOffset' retries')"

text \<open>A session used in the examples: two windows, the second holding the event cache.\<close>

definition example_remote :: remote where
  "example_remote =
     \<lparr>bustAlert = (\<lambda>platform d. Inr d),
      get = (\<lambda>url d. Inr (d\<lparr>proxyCache := (proxyCache d)(currentWindow d := Holds [''ready''])\<rparr>))\<rparr>"

definition example_driver :: driver where
  "example_driver =
     \<lparr>windowHandles = [''CDwindow-0'', ''CDwindow-1''],
      currentWindow = ''CDwindow-0'',
      proxyCache = (\<lambda>h. if h = ''CDwindow-1'' then Holds [''specDone''] else Undefined)\<rparr>"

text \<open>The same session with no event cache in any window.\<close>

definition no_cache_driver :: driver where
  "no_cache_driver = example_driver\<lparr>proxyCache := (\<lambda>h. Undefined)\<rparr>"

section \<open>The runner: configuration, state and collaborators\<close>

text \<open>
  \<^verbatim>\<open>lib/paramedic.js\<close>. The configuration object, read through its getters;
  \<open>wantMainTests\<close> and \<open>wantAppiumTests\<close> are \<^verbatim>\<open>config.runMainTests()\<close> and
  \<^verbatim>\<open>config.runAppiumTests()\<close>.
\<close>

record config =
  getPlatformId :: string
  getAction :: string
  getCli :: string
  getArgs :: string
  getPlugins :: "string list"
  getTimeout :: nat
  getOutputDir :: "string option"
  getFileTransferServer :: "string option"
  getTccDb :: "string option"
  isCI :: bool
  wantMainTests :: bool
  wantAppiumTests :: bool
  shouldUseSauce :: bool
  shouldCleanUpAfterRun :: bool

text \<open>The target descriptor \<^verbatim>\<open>{ target, simId }\<close> that the target chooser resolves.\<close>

record targetObj_t =
  target :: string
  simId :: "string option"

text \<open>
  What a run does, in order: the numbered banners it logs, the calls it makes to its
  collaborators, and its entry into \<^verbatim>\<open>cleanUpProject\<close>.
\<close>

datatype step =
    Banner nat
  | CreateTempProject
  | Pushd string
  | PrepareProjectToRunTests
  | StartServer
  | WriteMedicJson
  | RunSauceTests
  | StartFileTransferServer string
  | ChooseTarget
  | UpdatePermissions
  | ExecPromise string
  | CpExec string
  | WaitForConnection
  | WaitForTests
  | KillProcess
  | AppiumPrepareApp
  | PackageApp
  | UploadApp
  | AppiumRunTests bool
  | DisplaySauceDetails
  | CollectLogs
  | UninstallApp
  | ParamedicKill
  | EnterCleanUpProject
  | ServerCleanUp
  | Popd
  | Rm string

text \<open>
  The fields of \<^verbatim>\<open>ParamedicRunner\<close> that change during a run (\<open>server\<close> and
  \<open>paramedicSauceLabs\<close> tell whether \<^verbatim>\<open>this.server\<close> and \<^verbatim>\<open>this.paramedicSauceLabs\<close>
  have been assigned), the local \<^verbatim>\<open>runProcess\<close> that the callbacks of \<^verbatim>\<open>runLocalTests\<close>
  share (the command of the spawned process, until its exit callback resets it), and the
  steps taken so far.
\<close>

record runner =
  tempFolder :: "string option"
  server :: bool
  paramedicSauceLabs :: bool
  targetObj :: "targetObj_t option"
  runProcess :: "string option"
  trace :: "step list"

definition new_runner :: runner where
  "new_runner =
     \<lparr>tempFolder = None, server = False, paramedicSauceLabs = False, targetObj = None,
      runProcess = None, trace = []\<rparr>"

text \<open>
  The collaborators are outside the repository; what each of them answers in this run
  is a parameter. A synchronous call throws (\<open>Some e\<close>) or returns; an asynchronous one
  gives a promise that is fulfilled, rejected, or still pending when it is last looked
  at. \<open>exec_exit\<close> is the exit code of a launched command (\<open>None\<close> while it runs);
  \<open>channel\<close> is what the reporting channel and the two connection timers deliver.
\<close>

record world =
  path_isAbsolute :: "string \<Rightarrow> bool"
  path_resolve :: "string \<Rightarrow> string"
  checkSauceRequirements :: "error option"
  createTempProject :: "error + string"
  prepareProjectToRunTests :: "unit promise"
  startServer :: "unit promise"
  writeMedicJson :: "error option"
  runSauceTests :: "bool promise"
  startFileTransferServer :: "unit promise"
  chooseTarget :: "targetObj_t promise"
  updatePermissions :: "error option"
  exec_exit :: "string \<Rightarrow> nat option"
  channel :: "channel_event list"
  testPaths :: "string list option"
  appiumPrepareApp :: "unit promise"
  packageApp :: "unit promise"
  uploadApp :: "unit promise"
  appiumRunTests :: "bool promise"
  displaySauceDetails :: "unit promise"
  collectLogs :: "error option"
  uninstallApp_r :: "unit promise"
  paramedicKill :: "error option"
  serverCleanUp :: "error option"

section \<open>Promise chains over the runner\<close>

text \<open>
  A step of a promise chain acts on the runner and leaves a promise. The combinators
  are those of Q: \<^verbatim>\<open>.then\<close> runs its callback on fulfilment only; \<^verbatim>\<open>.catch\<close> (also
  \<^verbatim>\<open>.fail\<close>) on rejection only; \<^verbatim>\<open>.fin\<close> on either, keeps the settled value or error
  unless the callback itself fails, and waits for the callback's promise;
  \<^verbatim>\<open>.timeout\<close> rejects a promise that is still pending at the deadline. A callback
  that throws rejects the chain with what it threw.
\<close>

type_synonym 'a job = "runner \<Rightarrow> 'a promise \<times> runner"

definition Q :: "'a \<Rightarrow> 'a job" where
  "Q v s = (Fulfilled v, s)"

definition throw :: "error \<Rightarrow> 'a job" where
  "throw e s = (Rejected e, s)"

definition q_then :: "'a job \<Rightarrow> ('a \<Rightarrow> 'b job) \<Rightarrow> 'b job" where
  "q_then m f s =
     (case m s of
        (Fulfilled v, s') \<Rightarrow> f v s'
      | (Rejected e, s') \<Rightarrow> (Rejected e, s')
      | (Pending, s') \<Rightarrow> (Pending, s'))"

definition q_catch :: "'a job \<Rightarrow> (error \<Rightarrow> 'a job) \<Rightarrow> 'a job" where
  "q_catch m h s =
     (case m s of
        (Rejected e, s') \<Rightarrow> h e s'
      | (p, s') \<Rightarrow> (p, s'))"

definition q_fin :: "'a job \<Rightarrow> 'b job \<Rightarrow> 'a job" where
  "q_fin m c s =
     (case m s of
        (Pending, s') \<Rightarrow> (Pending, s')
      | (p, s') \<Rightarrow>
          (case c s' of
             (Fulfilled u, s'') \<Rightarrow> (p, s'')
           | (Rejected e, s'') \<Rightarrow> (Rejected e, s'')
           | (Pending, s'') \<Rightarrow> (Pending, s'')))"

definition q_timeout :: "nat \<Rightarrow> 'a job \<Rightarrow> 'a job" where
  "q_timeout ms m s =
     (case m s of
        (Pending, s') \<Rightarrow> (Rejected (TimedOut ms), s')
      | (p, s') \<Rightarrow> (p, s'))"

text \<open>
  \<^verbatim>\<open>Q.all([p1, p2])\<close>: fulfilled when both are, rejected as soon as one is. When both
  reject, Q takes the rejection that came first; here that is taken to be the first
  promise's.
\<close>

fun q_all2 :: "'a promise \<Rightarrow> 'b promise \<Rightarrow> ('a \<times> 'b) promise" where
  "q_all2 (Fulfilled a) (Fulfilled b) = Fulfilled (a, b)"
| "q_all2 (Rejected e) p2 = Rejected e"
| "q_all2 p1 (Rejected e) = Rejected e"
| "q_all2 p1 p2 = Pending"

text \<open>Taking a step: it is appended to the trace.\<close>

definition did :: "step \<Rightarrow> runner \<Rightarrow> runner" where
  "did x s = s\<lparr>trace := trace s @ [x]\<rparr>"

text \<open>A call to an asynchronous collaborator, and one to a synchronous collaborator.\<close>

definition calls :: "step \<Rightarrow> 'a promise \<Rightarrow> 'a job" where
  "calls x p s = (p, did x s)"

definition calls_sync :: "step \<Rightarrow> error option \<Rightarrow> unit job" where
  "calls_sync x r s =
     (case r of None \<Rightarrow> (Fulfilled (), did x s) | Some e \<Rightarrow> (Rejected e, did x s))"

text \<open>
  A function that either throws or returns a promise, called in a \<^verbatim>\<open>.then\<close> callback:
  what it throws rejects the chain.
\<close>

definition in_callback :: "(runner \<Rightarrow> (error + 'a promise) \<times> runner) \<Rightarrow> 'a job" where
  "in_callback f s =
     (case f s of
        (Inl e, s') \<Rightarrow> (Rejected e, s')
      | (Inr p, s') \<Rightarrow> (p, s'))"

section \<open>The runner: its methods\<close>

text \<open>JavaScript truthiness of an optional string: set and not empty.\<close>

fun truthy :: "string option \<Rightarrow> bool" where
  "truthy None = False"
| "truthy (Some v) = (v \<noteq> [])"

text \<open>
  \<^verbatim>\<open>checkConfig\<close>: logs the configuration; when the device farm is used, creates
  \<^verbatim>\<open>this.paramedicSauceLabs\<close> and checks the farm's requirements; refuses a run with no
  tests; and makes a relative CLI path absolute.
\<close>

definition checkConfig :: "config \<Rightarrow> world \<Rightarrow> runner \<Rightarrow> (error + config) \<times> runner" where
  "checkConfig cfg w s0 =
     (let s = (if shouldUseSauce cfg then (did (Banner 0) s0)\<lparr>paramedicSauceLabs := True\<rparr>
               else did (Banner 0) s0)
      in case (if shouldUseSauce cfg then checkSauceRequirements w else None) of
           Some e \<Rightarrow> (Inl e, s)
         | None \<Rightarrow>
             if \<not> wantMainTests cfg \<and> \<not> wantAppiumTests cfg then (Inl NoTestsToRun, s)
             else if getCli cfg \<notin> set [''cordova'', ''phonegap'']
                     \<and> \<not> path_isAbsolute w (getCli cfg)
               then (Inr (cfg\<lparr>getCli := path_resolve w (getCli cfg)\<rparr>), s)
             else (Inr cfg, s))"

text \<open>
  \<^verbatim>\<open>setPermissions\<close>, \<^verbatim>\<open>maybeRunFileTransferServer\<close> and
  \<^verbatim>\<open>getCommandForStartingTests\<close>. Reading \<^verbatim>\<open>.name\<close> of a \<^verbatim>\<open>tempFolder\<close> that is still
  \<^verbatim>\<open>null\<close>, or calling a method of a \<^verbatim>\<open>server\<close> that was never assigned, is a TypeError.
\<close>

definition setPermissions :: "config \<Rightarrow> world \<Rightarrow> unit job" where
  "setPermissions cfg w =
     (if getPlatformId cfg = IOS \<and> truthy (getTccDb cfg)
      then calls_sync UpdatePermissions (updatePermissions w)
      else Q ())"

definition maybeRunFileTransferServer :: "config \<Rightarrow> world \<Rightarrow> unit job" where
  "maybeRunFileTransferServer cfg w s =
     (if list_ex (sublist ''cordova-plugin-file-transfer'') (getPlugins cfg)
         \<and> \<not> truthy (getFileTransferServer cfg) \<and> \<not> isCI cfg
      then if \<not> server s then (Rejected NullServer, s)
           else (case tempFolder s of
                   None \<Rightarrow> (Rejected NullTempFolder, s)
                 | Some name \<Rightarrow>
                     calls (StartFileTransferServer name) (startFileTransferServer w) s)
      else (Fulfilled (), s))"

definition baseCommand :: "config \<Rightarrow> string list" where
  "baseCommand cfg =
     [getCli cfg, getAction cfg, getPlatformId cfg] @ PARAMEDIC_COMMON_ARGS @ [getArgs cfg]"

definition getCommandForStartingTests :: "config \<Rightarrow> world \<Rightarrow> string job" where
  "getCommandForStartingTests cfg w s =
     (let cmd = baseCommand cfg
      in if getPlatformId cfg = BROWSER then Q (join '' '' cmd) s
         else if getAction cfg = ''build''
                 \<or> (getPlatformId cfg = WINDOWS \<and> \<not> sublist ''appx=8.1-phone'' (getArgs cfg))
           then Q (join '' '' cmd) s
         else (case tempFolder s of
                 None \<Rightarrow> (Rejected NullTempFolder, s)
               | Some name \<Rightarrow>
                   q_then (calls ChooseTarget (chooseTarget w))
                     (\<lambda>t s'. (Fulfilled
                                (join '' ''
                                   (cmd @ [''--target'', [CHR 0x22] @ target t @ [CHR 0x22]]
                                      @ (if getPlatformId cfg = IOS then [''--emulator''] else []))),
                              s'\<lparr>targetObj := Some t\<rparr>)) s))"

definition shouldWaitForTestResult :: "config \<Rightarrow> bool" where
  "shouldWaitForTestResult cfg =
     (prefix ''run'' (getAction cfg) \<or> prefix ''emulate'' (getAction cfg))"

text \<open>
  Modelled from the spec: \<^verbatim>\<open>execPromise\<close> of \<^verbatim>\<open>lib/utils\<close>, which is not among the
  sources. It runs the command to completion; its promise is fulfilled when the command
  exits with code zero and rejected when it exits with another code.
\<close>

definition execPromise :: "world \<Rightarrow> string \<Rightarrow> unit promise" where
  "execPromise w command =
     (case exec_exit w command of
        None \<Rightarrow> Pending
      | Some code \<Rightarrow> if code = 0 then Fulfilled () else Rejected (CommandFailed code))"

text \<open>
  The two promises \<^verbatim>\<open>runLocalTests\<close> hands to \<^verbatim>\<open>Q.all\<close>. The first launches the
  command: off the browser it waits for it, on the browser it spawns it with
  \<^verbatim>\<open>cp.exec\<close>, keeps the process in \<^verbatim>\<open>runProcess\<close> and does not wait. The second is
  the verdict of the main tests: the race of the two waits when there is a result to
  wait for, else passed. The exit callback of \<^verbatim>\<open>cp.exec\<close>, which resets \<^verbatim>\<open>runProcess\<close>,
  is a callback of the event loop like those of the channel: it can only run while the
  race is waited for, and does so when the spawned command has exited by then.
\<close>

definition launchCommand :: "config \<Rightarrow> world \<Rightarrow> string \<Rightarrow> unit job" where
  "launchCommand cfg w command s =
     (if getPlatformId cfg \<noteq> BROWSER
      then calls (ExecPromise command) (execPromise w command) s
      else (Fulfilled (), did (CpExec command) (s\<lparr>runProcess := Some command\<rparr>)))"

definition exitCallback :: "world \<Rightarrow> runner \<Rightarrow> runner" where
  "exitCallback w s =
     (case runProcess s of
        None \<Rightarrow> s
      | Some command \<Rightarrow> if exec_exit w command = None then s else s\<lparr>runProcess := None\<rparr>)"

definition mainTestsVerdict :: "config \<Rightarrow> world \<Rightarrow> bool job" where
  "mainTestsVerdict cfg w s =
     (if \<not> wantMainTests cfg then (Fulfilled TEST_PASSED, s)
      else if shouldWaitForTestResult cfg
        then (waitForTestResult (channel w),
              exitCallback w (did WaitForTests (did WaitForConnection s)))
      else (Fulfilled TEST_PASSED, s))"

definition q_all :: "'a job \<Rightarrow> 'b job \<Rightarrow> ('a \<times> 'b) job" where
  "q_all j1 j2 s =
     (case j1 s of (p1, s1) \<Rightarrow> (case j2 s1 of (p2, s2) \<Rightarrow> (q_all2 p1 p2, s2)))"

definition killRunProcess :: "unit job" where
  "killRunProcess s =
     (case runProcess s of
        Some command \<Rightarrow> (Fulfilled (), did KillProcess s)
      | None \<Rightarrow> (Fulfilled (), s))"

definition runLocalTests :: "config \<Rightarrow> world \<Rightarrow> bool job" where
  "runLocalTests cfg w s0 =
     (let s = s0\<lparr>runProcess := None\<rparr>
      in if \<not> wantMainTests cfg \<and> getPlatformId cfg \<noteq> ANDROID then Q TEST_PASSED s
         else
           q_fin
             (q_then
                (q_then
                   (q_then
                      (q_then (Q ()) (\<lambda>u. maybeRunFileTransferServer cfg w))
                      (\<lambda>u. getCommandForStartingTests cfg w))
                   (\<lambda>command.
                      q_then (setPermissions cfg w)
                        (\<lambda>u. q_all (launchCommand cfg w command) (mainTestsVerdict cfg w))))
                (\<lambda>results. Q (snd results)))
             killRunProcess s)"

text \<open>
  \<^verbatim>\<open>runAppiumTests(useSauce)\<close> throws or returns a promise. \<open>noTarget\<close> is
  \<^verbatim>\<open>!this.targetObj || !this.targetObj.target\<close>. The options read
  \<^verbatim>\<open>this.tempFolder.name\<close> and, with \<^verbatim>\<open>useSauce\<close>, call \<^verbatim>\<open>getAppName\<close> and
  \<^verbatim>\<open>getSauceCaps\<close> of \<^verbatim>\<open>this.paramedicSauceLabs\<close>, a TypeError when that is \<^verbatim>\<open>null\<close>
  (the two calls themselves are taken to return). \<open>testPaths\<close> of the world is
  \<^verbatim>\<open>appiumRunner.options.testPaths\<close> of the Appium runner created from the options.
\<close>

definition noTarget :: "runner \<Rightarrow> bool" where
  "noTarget s = (case targetObj s of None \<Rightarrow> True | Some t \<Rightarrow> target t = [])"

definition runAppiumTests ::
  "config \<Rightarrow> world \<Rightarrow> bool \<Rightarrow> runner \<Rightarrow> (error + bool promise) \<times> runner" where
  "runAppiumTests cfg w useSauce s0 =
     (let s = did (Banner 5) s0; platform = getPlatformId cfg
      in if getAction cfg = ''build'' then (Inr (Fulfilled TEST_PASSED), s)
         else if \<not> wantAppiumTests cfg then (Inr (Fulfilled TEST_PASSED), s)
         else if platform \<noteq> ANDROID \<and> platform \<noteq> IOS then (Inr (Fulfilled TEST_PASSED), s)
         else if \<not> useSauce \<and> noTarget s then (Inl NoLocalDeviceName, s)
         else (case tempFolder s of
                 None \<Rightarrow> (Inl NullTempFolder, s)
               | Some name \<Rightarrow>
                   if useSauce \<and> \<not> paramedicSauceLabs s then (Inl NullSauceLabs, s)
                   else if testPaths w = Some [] then (Inr (Fulfilled TEST_PASSED), s)
                   else
                     (case q_then
                             (q_then
                                (q_then (Q ()) (\<lambda>u. calls AppiumPrepareApp (appiumPrepareApp w)))
                                (\<lambda>u. if useSauce
                                      then q_then (calls PackageApp (packageApp w))
                                             (\<lambda>u. calls UploadApp (uploadApp w))
                                      else Q ()))
                             (\<lambda>u. calls (AppiumRunTests useSauce) (appiumRunTests w)) s
                      of (p, s') \<Rightarrow> (Inr p, s'))))"

text \<open>
  \<^verbatim>\<open>runTests\<close>: the main tests, on the device farm or locally, then the Appium tests;
  the verdict is \<^verbatim>\<open>isTestPassed === TEST_PASSED && isAppiumTestPassed === TEST_PASSED\<close>.
\<close>

definition runTests :: "config \<Rightarrow> world \<Rightarrow> bool job" where
  "runTests cfg w s0 =
     (let s = did (Banner 4) s0
      in if shouldUseSauce cfg then
           q_then (calls RunSauceTests (runSauceTests w))
             (\<lambda>isTestPassed.
                q_then (in_callback (runAppiumTests cfg w True))
                  (\<lambda>isAppiumTestPassed.
                     Q (isTestPassed = TEST_PASSED \<and> isAppiumTestPassed = TEST_PASSED))) s
         else
           q_then (runLocalTests cfg w)
             (\<lambda>isTestPassed.
                q_then (in_callback (runAppiumTests cfg w False))
                  (\<lambda>isAppiumTestPassed.
                     Q (isTestPassed = TEST_PASSED \<and> isAppiumTestPassed = TEST_PASSED))) s)"

text \<open>The cleanup methods.\<close>

definition collectDeviceLogs :: "config \<Rightarrow> world \<Rightarrow> unit job" where
  "collectDeviceLogs cfg w s =
     (case tempFolder s of
        None \<Rightarrow> (Rejected NullTempFolder, s)
      | Some name \<Rightarrow> calls_sync CollectLogs (collectLogs w) s)"

definition uninstallApp :: "world \<Rightarrow> runner \<Rightarrow> (error + unit promise) \<times> runner" where
  "uninstallApp w s =
     (case tempFolder s of
        None \<Rightarrow> (Inl NullTempFolder, s)
      | Some name \<Rightarrow> (Inr (uninstallApp_r w), did UninstallApp s))"

definition killEmulatorProcess :: "config \<Rightarrow> world \<Rightarrow> unit job" where
  "killEmulatorProcess cfg w =
     (if shouldCleanUpAfterRun cfg then calls_sync ParamedicKill (paramedicKill w) else Q ())"

definition cleanUpProject :: "config \<Rightarrow> world \<Rightarrow> unit job" where
  "cleanUpProject cfg w =
     q_then
       (\<lambda>s. if server s then calls_sync ServerCleanUp (serverCleanUp w) (did EnterCleanUpProject s)
            else (Fulfilled (), did EnterCleanUpProject s))
       (\<lambda>u s. if shouldCleanUpAfterRun cfg then
                (case tempFolder s of
                   None \<Rightarrow> (Rejected NullTempFolder, s)
                 | Some name \<Rightarrow> (Fulfilled (), did (Rm name) (did Popd s)))
              else (Fulfilled (), s))"

text \<open>
  \<^verbatim>\<open>run\<close>. Its promise chain: the three \<^verbatim>\<open>.then\<close> phases (\<open>phases\<close>), guarded by
  \<^verbatim>\<open>.timeout\<close> and the \<^verbatim>\<open>.catch\<close> that rethrows \<^verbatim>\<open>new Error(error)\<close>
  (\<open>guarded_phases\<close>); then the first \<^verbatim>\<open>.fin\<close> callback ("6. Collect data and clean
  up"), and the second \<^verbatim>\<open>.fin\<close> callback, which calls \<^verbatim>\<open>cleanUpProject\<close>.
\<close>

definition createAndPrepare :: "config \<Rightarrow> world \<Rightarrow> unit job" where
  "createAndPrepare cfg w s =
     (case createTempProject w of
        Inl e \<Rightarrow> (Rejected e, did CreateTempProject s)
      | Inr name \<Rightarrow>
          calls PrepareProjectToRunTests (prepareProjectToRunTests w)
            (did (Pushd name) ((did CreateTempProject s)\<lparr>tempFolder := Some name\<rparr>)))"

definition maybeStartServer :: "config \<Rightarrow> world \<Rightarrow> unit job" where
  "maybeStartServer cfg w =
     (if wantMainTests cfg then calls StartServer (startServer w) else Q ())"

definition configureAndRunTests :: "config \<Rightarrow> world \<Rightarrow> bool job" where
  "configureAndRunTests cfg w =
     (if wantMainTests cfg
      then q_then (\<lambda>s. calls_sync WriteMedicJson (writeMedicJson w) (s\<lparr>server := True\<rparr>))
             (\<lambda>u. runTests cfg w)
      else runTests cfg w)"

definition phases :: "config \<Rightarrow> world \<Rightarrow> bool job" where
  "phases cfg w =
     q_then
       (q_then
          (q_then (Q ()) (\<lambda>u. createAndPrepare cfg w))
          (\<lambda>u. maybeStartServer cfg w))
       (\<lambda>u. configureAndRunTests cfg w)"

definition guarded_phases :: "config \<Rightarrow> world \<Rightarrow> bool job" where
  "guarded_phases cfg w =
     q_catch (q_timeout (getTimeout cfg) (phases cfg w)) (\<lambda>error. throw (Wrapped error))"

definition collectDataAndCleanUp :: "config \<Rightarrow> world \<Rightarrow> unit job" where
  "collectDataAndCleanUp cfg w s0 =
     (let s = did (Banner 6) s0
      in if shouldUseSauce cfg then calls DisplaySauceDetails (displaySauceDetails w) s
         else if getAction cfg \<noteq> ''build'' then
           q_then (collectDeviceLogs cfg w)
             (\<lambda>u s1. case uninstallApp w s1 of
                       (Inl e, s2) \<Rightarrow> (Rejected e, s2)
                     | (Inr p, s2) \<Rightarrow>
                         q_fin (q_catch (\<lambda>s3. (p, s3)) (\<lambda>e. Q ()))
                           (killEmulatorProcess cfg w) s2) s
         else Q () s)"

definition run :: "config \<Rightarrow> world \<Rightarrow> (error + bool promise) \<times> runner" where
  "run cfg0 w =
     (case checkConfig cfg0 w new_runner of
        (Inl e, s) \<Rightarrow> (Inl e, s)
      | (Inr cfg, s) \<Rightarrow>
          (case q_fin (q_fin (guarded_phases cfg w) (collectDataAndCleanUp cfg w))
                  (cleanUpProject cfg w) s
           of (p, s') \<Rightarrow> (Inr p, s')))"

section \<open>A run used in the examples\<close>

text \<open>
  An Android run of the main and the Appium tests in which every collaborator succeeds
  and the device reports no failed spec; the examples below vary it field by field.
\<close>

definition example_config :: config where
  "example_config =
     \<lparr>getPlatformId = ANDROID, getAction = ''run'', getCli = ''cordova'', getArgs = [],
      getPlugins = [''./spec/testable-plugin/''], getTimeout = 3600000, getOutputDir = None,
      getFileTransferServer = None, getTccDb = None, isCI = False, wantMainTests = True,
      wantAppiumTests = True, shouldUseSauce = False, shouldCleanUpAfterRun = True\<rparr>"

definition example_world :: world where
  "example_world =
     \<lparr>path_isAbsolute = prefix ''/'', path_resolve = (\<lambda>p. ''/work/'' @ p),
      checkSauceRequirements = None, createTempProject = Inr ''/tmp/tmp-1'',
      prepareProjectToRunTests = Fulfilled (), startServer = Fulfilled (),
      writeMedicJson = None, runSauceTests = Fulfilled True,
      startFileTransferServer = Fulfilled (),
      chooseTarget = Fulfilled \<lparr>target = ''emulator-5554'', simId = None\<rparr>,
      updatePermissions = None, exec_exit = (\<lambda>command. Some 0),
      channel = [JasmineDone \<lparr>specResults = \<lparr>specFailed = 0\<rparr>\<rparr>],
      testPaths = Some [''appium-tests/android''], appiumPrepareApp = Fulfilled (),
      packageApp = Fulfilled (), uploadApp = Fulfilled (), appiumRunTests = Fulfilled True,
      displaySauceDetails = Fulfilled (), collectLogs = None, uninstallApp_r = Fulfilled (),
      paramedicKill = None, serverCleanUp = None\<rparr>"

text \<open>The same with the action "build", on Android and on the browser, and a world in
  which every launched command exits with code 1.\<close>

definition build_config :: config where
  "build_config = example_config\<lparr>getAction := ''build''\<rparr>"

definition browser_build_config :: config where
  "browser_build_config = build_config\<lparr>getPlatformId := BROWSER\<rparr>"

definition failing_world :: world where
  "failing_world = example_world\<lparr>exec_exit := (\<lambda>command. Some 1)\<rparr>"

text \<open>
  Further variations of the example: the flag "clean up after run" off, a configuration
  that skips both kinds of tests, a world in which the uninstall fails, and one in which
  the device never reports.
\<close>

definition keep_config :: config where
  "keep_config = example_config\<lparr>shouldCleanUpAfterRun := False\<rparr>"

definition no_tests_config :: config where
  "no_tests_config = example_config\<lparr>wantMainTests := False, wantAppiumTests := False\<rparr>"

definition uninstall_failing_world :: world where
  "uninstall_failing_world =
     example_world\<lparr>uninstallApp_r := Rejected (Failure ''adb uninstall failed'')\<rparr>"

definition silent_world :: world where
  "silent_world = example_world\<lparr>channel := []\<rparr>"

text \<open>
  Worlds in which one collaborator of the cleanup fails or never answers: log collection
  throws, the promise of the uninstall stays pending, the emulator kill throws, the
  server's clean-up throws; a run on the device farm, and worlds in which the promise of
  its details stays pending or is rejected; and a world in which the temp project cannot
  be created.
\<close>

definition logs_failing_world :: world where
  "logs_failing_world = example_world\<lparr>collectLogs := Some (Failure ''adb logcat failed'')\<rparr>"

definition hanging_uninstall_world :: world where
  "hanging_uninstall_world = example_world\<lparr>uninstallApp_r := Pending\<rparr>"

definition kill_failing_world :: world where
  "kill_failing_world = example_world\<lparr>paramedicKill := Some (Failure ''kill failed'')\<rparr>"

definition server_failing_world :: world where
  "server_failing_world = example_world\<lparr>serverCleanUp := Some (Failure ''server is gone'')\<rparr>"

definition sauce_config :: config where
  "sauce_config = example_config\<lparr>shouldUseSauce := True\<rparr>"

definition hanging_details_world :: world where
  "hanging_details_world = example_world\<lparr>displaySauceDetails := Pending\<rparr>"

definition failing_details_world :: world where
  "failing_details_world =
     example_world\<lparr>displaySauceDetails := Rejected (Failure ''no job details'')\<rparr>"

definition no_project_world :: world where
  "no_project_world = example_world\<lparr>createTempProject := Inl (Failure ''no temp dir'')\<rparr>"

text \<open>
  A world in which the device is connected when the two connection timers expire and
  disconnects afterwards, before it has reported \<^verbatim>\<open>jasmineDone\<close>.
\<close>

definition disconnecting_world :: world where
  "disconnecting_world =
     example_world\<lparr>channel := [ConnectionTimer True, TestsTimer True, Disconnect]\<rparr>"

section \<open>Vocabulary for the properties of a run\<close>

text \<open>
  The steps of the cleanup: the banner of the first \<^verbatim>\<open>.fin\<close> callback and what it
  calls, the entry into \<^verbatim>\<open>cleanUpProject\<close> and what that calls.
\<close>

fun is_cleanup :: "step \<Rightarrow> bool" where
  "is_cleanup (Banner n) = (n = 6)"
| "is_cleanup DisplaySauceDetails = True"
| "is_cleanup CollectLogs = True"
| "is_cleanup UninstallApp = True"
| "is_cleanup ParamedicKill = True"
| "is_cleanup EnterCleanUpProject = True"
| "is_cleanup ServerCleanUp = True"
| "is_cleanup Popd = True"
| "is_cleanup (Rm name) = True"
| "is_cleanup x = False"

fun is_first_fin :: "step \<Rightarrow> bool" where
  "is_first_fin DisplaySauceDetails = True"
| "is_first_fin CollectLogs = True"
| "is_first_fin UninstallApp = True"
| "is_first_fin ParamedicKill = True"
| "is_first_fin x = False"

fun is_second_fin :: "step \<Rightarrow> bool" where
  "is_second_fin ServerCleanUp = True"
| "is_second_fin Popd = True"
| "is_second_fin (Rm name) = True"
| "is_second_fin x = False"

fun is_wait :: "step \<Rightarrow> bool" where
  "is_wait WaitForConnection = True"
| "is_wait WaitForTests = True"
| "is_wait x = False"

text \<open>The steps \<^verbatim>\<open>runLocalTests\<close> can take under a configuration.\<close>

fun local_step :: "config \<Rightarrow> step \<Rightarrow> bool" where
  "local_step cfg (StartFileTransferServer name) = True"
| "local_step cfg ChooseTarget = True"
| "local_step cfg UpdatePermissions = True"
| "local_step cfg (ExecPromise c) = True"
| "local_step cfg (CpExec c) = True"
| "local_step cfg KillProcess = True"
| "local_step cfg WaitForConnection = shouldWaitForTestResult cfg"
| "local_step cfg WaitForTests = shouldWaitForTestResult cfg"
| "local_step cfg x = False"

text \<open>
  \<open>proceeds P s s'\<close>: the runner \<open>s'\<close> comes from \<open>s\<close> by taking steps that all
  satisfy \<open>P\<close>, with the same temp folder. A job proceeds by \<open>P\<close> when it does so from
  every state.
\<close>

definition proceeds :: "(step \<Rightarrow> bool) \<Rightarrow> runner \<Rightarrow> runner \<Rightarrow> bool" where
  "proceeds P s s' =
     (tempFolder s' = tempFolder s \<and> (\<exists>t. trace s' = trace s @ t \<and> list_all P t))"

definition job_proceeds :: "(step \<Rightarrow> bool) \<Rightarrow> 'a job \<Rightarrow> bool" where
  "job_proceeds P m = (\<forall>s. proceeds P s (snd (m s)))"

text \<open>
  The runner when \<^verbatim>\<open>runTests\<close> is called, from the runner \<open>s\<close> the chain starts with:
  the temp project \<open>name\<close> created and prepared and, when the main tests run, the server
  started and \<^verbatim>\<open>medic.json\<close> written.
\<close>

definition tests_ready :: "config \<Rightarrow> string \<Rightarrow> runner \<Rightarrow> runner" where
  "tests_ready cfg name s =
     (let s1 = did PrepareProjectToRunTests
                 (did (Pushd name) ((did CreateTempProject s)\<lparr>tempFolder := Some name\<rparr>))
      in if wantMainTests cfg then did WriteMedicJson ((did StartServer s1)\<lparr>server := True\<rparr>)
         else s1)"

text \<open>
  What \<^verbatim>\<open>p.fin(c1).fin(c2)\<close> settles to when \<open>p\<close> is settled and the two callbacks leave
  \<open>r1\<close> and \<open>r2\<close>: a failing callback replaces the outcome, the later one first.
\<close>

definition after_fins :: "'a promise \<Rightarrow> unit promise \<Rightarrow> unit promise \<Rightarrow> 'a promise" where
  "after_fins p r1 r2 =
     (case r2 of
        Rejected e2 \<Rightarrow> Rejected e2
      | Pending \<Rightarrow> Pending
      | Fulfilled u \<Rightarrow> (case r1 of Rejected e1 \<Rightarrow> Rejected e1 | Pending \<Rightarrow> Pending | Fulfilled u \<Rightarrow> p))"

section \<open>The result listener\<close>

lemma waitForTests_append:
  "waitForTests (xs @ ys) = foldl (\<lambda>p e. waitForTests_on e p) (waitForTests xs) ys"
  by (simp add: waitForTests_def)

lemma waitForTests_on_Fulfilled: "waitForTests_on e (Fulfilled b) = Fulfilled b"
  by (cases e) simp_all

lemma waitForTests_on_Rejected: "waitForTests_on e (Rejected x) = Rejected x"
  by (cases e) simp_all

lemma foldl_waitForTests_Fulfilled:
  "foldl (\<lambda>p e. waitForTests_on e p) (Fulfilled b) evs = Fulfilled b"
  by (induction evs) (simp_all add: waitForTests_on_Fulfilled)

lemma foldl_waitForTests_Rejected:
  "foldl (\<lambda>p e. waitForTests_on e p) (Rejected x) evs = Rejected x"
  by (induction evs) (simp_all add: waitForTests_on_Rejected)

lemma waitForTests_still_pending:
  "list_all leaves_tests_pending evs \<Longrightarrow> waitForTests evs = Pending"
proof (induction evs rule: rev_induct)
  case Nil
  then show ?case by (simp add: waitForTests_def)
next
  case (snoc e evs)
  then show ?case by (cases e) (simp_all add: waitForTests_append)
qed

text \<open>
  C2. The \<^verbatim>\<open>jasmineDone\<close> listener calls \<^verbatim>\<open>resolve(data.specResults.specFailed === 0)\<close>:
  on a wait that is still pending the result is passed exactly when the failure counter
  is zero, and failed for every other counter; whatever events follow, it stays so.
\<close>

theorem jasmineDone_passed_iff_specFailed_zero:
  "waitForTests_on (JasmineDone d) Pending = Fulfilled (specFailed (specResults d) = 0)
   \<and> (waitForTests_on (JasmineDone d) Pending = Fulfilled TEST_PASSED
        \<longleftrightarrow> specFailed (specResults d) = 0)
   \<and> (waitForTests_on (JasmineDone d) Pending = Fulfilled TEST_FAILED
        \<longleftrightarrow> specFailed (specResults d) \<noteq> 0)
   \<and> waitForTests (JasmineDone d # evs) = Fulfilled (specFailed (specResults d) = 0)"
  by (simp add: TEST_PASSED_def TEST_FAILED_def waitForTests_def foldl_waitForTests_Fulfilled)

theorem jasmineDone_passed_iff_specFailed_zero_witness:
  "waitForTests [JasmineDone \<lparr>specResults = \<lparr>specFailed = 0\<rparr>\<rparr>, Disconnect] = Fulfilled True
   \<and> waitForTests [JasmineDone \<lparr>specResults = \<lparr>specFailed = 3\<rparr>\<rparr>, Disconnect] = Fulfilled False"
  using jasmineDone_passed_iff_specFailed_zero
          [of "\<lparr>specResults = \<lparr>specFailed = 0\<rparr>\<rparr>" "[Disconnect]"]
        jasmineDone_passed_iff_specFailed_zero
          [of "\<lparr>specResults = \<lparr>specFailed = 3\<rparr>\<rparr>" "[Disconnect]"]
  by simp

text \<open>
  The promise of \<^verbatim>\<open>waitForTests\<close>, taken alone: a \<^verbatim>\<open>disconnect\<close> delivered while it is
  still pending (it is pending when nothing but other events and timer expiries with a
  device connected came before) rejects it with the error "Device is disconnected before
  passing the tests", and a later \<^verbatim>\<open>jasmineDone\<close> does not change that; a
  \<^verbatim>\<open>disconnect\<close> delivered after it has settled to a verdict leaves the verdict as it
  is. What the race of \<^verbatim>\<open>runLocalTests\<close> makes of that rejection is the subject of the
  last section.
\<close>

lemma waitForTests_disconnect:
  "(waitForTests pre = Pending \<longrightarrow>
      waitForTests (pre @ Disconnect # post) = Rejected DeviceDisconnected)
   \<and> (list_all leaves_tests_pending pre \<longrightarrow>
      waitForTests (pre @ Disconnect # post) = Rejected DeviceDisconnected)
   \<and> (waitForTests pre = Fulfilled b \<longrightarrow>
      waitForTests (pre @ Disconnect # post) = Fulfilled b)"
  by (simp add: waitForTests_append foldl_waitForTests_Fulfilled foldl_waitForTests_Rejected
        waitForTests_still_pending)

lemma waitForTests_disconnect_examples:
  "waitForTests [OtherEvent ''deviceInfo'', Disconnect,
                 JasmineDone \<lparr>specResults = \<lparr>specFailed = 0\<rparr>\<rparr>] = Rejected DeviceDisconnected
   \<and> waitForTests [JasmineDone \<lparr>specResults = \<lparr>specFailed = 0\<rparr>\<rparr>, Disconnect] = Fulfilled True
   \<and> waitForTests [JasmineDone \<lparr>specResults = \<lparr>specFailed = 2\<rparr>\<rparr>, Disconnect,
                   TestsTimer False] = Fulfilled False"
proof -
  have p: "waitForTests [OtherEvent ''deviceInfo''] = Pending"
    by (simp add: waitForTests_def)
  have f0: "waitForTests [JasmineDone \<lparr>specResults = \<lparr>specFailed = 0\<rparr>\<rparr>] = Fulfilled True"
    by (simp add: waitForTests_def)
  have f2: "waitForTests [JasmineDone \<lparr>specResults = \<lparr>specFailed = 2\<rparr>\<rparr>] = Fulfilled False"
    by (simp add: waitForTests_def)
  show ?thesis
    using waitForTests_disconnect
            [of "[OtherEvent ''deviceInfo'']" "[JasmineDone \<lparr>specResults = \<lparr>specFailed = 0\<rparr>\<rparr>]" True]
          waitForTests_disconnect
            [of "[JasmineDone \<lparr>specResults = \<lparr>specFailed = 0\<rparr>\<rparr>]" "[]" True]
          waitForTests_disconnect
            [of "[JasmineDone \<lparr>specResults = \<lparr>specFailed = 2\<rparr>\<rparr>]" "[TestsTimer False]" False]
          p f0 f2
    by simp
qed

section \<open>The event poller: what a call does with the read\<close>

lemma executeRead_Null: "fst (executeRead d) = Null \<Longrightarrow> executeRead d = (Null, d)"
  by (auto simp: executeRead_def split: cache.splits)

lemma call_absent:
  assumes "beforeRead rem platform skip (windowOffset_or_0 w) d = Inr d2"
      and "fst (executeRead d2) = Null"
  shows "pollForEvents_call rem d platform skip w r =
           afterRead rem platform skip (windowOffset_or_0 w) (retries_or_default r) (Null, d2)"
  using assms by (simp add: pollForEvents_call_def executeRead_Null)

lemma call_offset_out_of_range:
  assumes "platform \<noteq> IOS" and "platform \<noteq> BROWSER"
      and "maybeBustAlert rem platform skip d = Inr d1"
      and "length (windowHandles d1) \<le> windowOffset_or_0 w"
  shows "pollForEvents_call rem d platform skip w r = Throw CannotFindWindow"
  using assms by (simp add: pollForEvents_call_def beforeRead_def switchWindow_def)

lemma pollForEvents_Throw:
  "pollForEvents_call rem d platform skip w r = Throw e
     \<Longrightarrow> pollForEvents rem d platform skip w r = Some (Inl e)"
  by (subst pollForEvents.simps) simp

lemma pollForEvents_Return:
  "pollForEvents_call rem d platform skip w r = Return evs d'
     \<Longrightarrow> pollForEvents rem d platform skip w r = Some (Inr (evs, d'))"
  by (subst pollForEvents.simps) simp

lemma pollForEvents_Recurse:
  "pollForEvents_call rem d platform skip w r = Recurse d' platform' skip' w' r'
     \<Longrightarrow> pollForEvents rem d platform skip w r = pollForEvents rem d' platform' skip' w' r'"
  by (subst pollForEvents.simps) simp

lemma platforms_distinct:
  "ANDROID \<noteq> IOS" "ANDROID \<noteq> BROWSER" "IOS \<noteq> BROWSER" "IOS \<noteq> ANDROID"
  "BROWSER \<noteq> ANDROID" "BROWSER \<noteq> IOS" "WINDOWS \<noteq> ANDROID" "WINDOWS \<noteq> IOS"
  "WINDOWS \<noteq> BROWSER"
  by (simp_all add: ANDROID_def IOS_def BROWSER_def WINDOWS_def)

text \<open>
  C5 (as amended). When the read returns the sentinel \<^verbatim>\<open>null\<close> off the browser:
  on Android the call becomes the call with \<^verbatim>\<open>windowOffset + 1\<close> (and the default
  retries); that call has no cap of its own, but the poll it starts fails with
  "Cannot find a window with the event cache." as soon as the offset has reached the
  number of window handles. On every other platform but the browser the call fails
  with "Cannot get the event cache ... Got this instead: null".
\<close>

theorem absent_off_browser:
  assumes "platform \<noteq> BROWSER"
      and "beforeRead rem platform skip (windowOffset_or_0 w) d = Inr d2"
      and "fst (executeRead d2) = Null"
  shows "(platform = ANDROID \<longrightarrow>
            pollForEvents_call rem d platform skip w r
              = Recurse d2 platform skip (Some (windowOffset_or_0 w + 1)) None
          \<and> pollForEvents rem d platform skip w r
              = pollForEvents rem d2 platform skip (Some (windowOffset_or_0 w + 1)) None
          \<and> (\<forall>d3. maybeBustAlert rem platform skip d2 = Inr d3
                    \<and> length (windowHandles d3) \<le> windowOffset_or_0 w + 1
                \<longrightarrow> pollForEvents rem d platform skip w r = Some (Inl CannotFindWindow)))
       \<and> (platform \<noteq> ANDROID \<longrightarrow>
            pollForEvents_call rem d platform skip w r
              = Throw (CannotGetEventCache ''null'')
          \<and> pollForEvents rem d platform skip w r
              = Some (Inl (CannotGetEventCache ''null'')))"
proof (intro conjI impI allI)
  assume a: "platform = ANDROID"
  show c: "pollForEvents_call rem d platform skip w r
             = Recurse d2 platform skip (Some (windowOffset_or_0 w + 1)) None"
    using assms a by (simp add: call_absent afterRead_def)
  show p: "pollForEvents rem d platform skip w r
             = pollForEvents rem d2 platform skip (Some (windowOffset_or_0 w + 1)) None"
    using c by (rule pollForEvents_Recurse)
  fix d3
  assume b: "maybeBustAlert rem platform skip d2 = Inr d3
               \<and> length (windowHandles d3) \<le> windowOffset_or_0 w + 1"
  have "platform \<noteq> IOS" using a by (simp add: platforms_distinct)
  then have "pollForEvents_call rem d2 platform skip (Some (windowOffset_or_0 w + 1)) None
               = Throw CannotFindWindow"
    using assms(1) b by (simp add: call_offset_out_of_range)
  then show "pollForEvents rem d platform skip w r = Some (Inl CannotFindWindow)"
    using p by (simp add: pollForEvents_Throw)
next
  assume a: "platform \<noteq> ANDROID"
  show c: "pollForEvents_call rem d platform skip w r = Throw (CannotGetEventCache ''null'')"
    using assms a by (simp add: call_absent afterRead_def)
  show "pollForEvents rem d platform skip w r = Some (Inl (CannotGetEventCache ''null''))"
    using c by (rule pollForEvents_Throw)
qed

theorem absent_off_browser_witness:
  "ANDROID \<noteq> BROWSER
   \<and> beforeRead example_remote ANDROID True 0 example_driver = Inr example_driver
   \<and> fst (executeRead example_driver) = Null
   \<and> pollForEvents_call example_remote example_driver ANDROID True (Some 0) None
       = Recurse example_driver ANDROID True (Some 1) None
   \<and> pollForEvents example_remote example_driver ANDROID True (Some 0) None
       = pollForEvents example_remote example_driver ANDROID True (Some 1) None
   \<and> pollForEvents example_remote no_cache_driver ANDROID True (Some 1) None
       = Some (Inl CannotFindWindow)
   \<and> pollForEvents example_remote example_driver WINDOWS True (Some 0) None
       = Some (Inl (CannotGetEventCache ''null''))"
proof -
  have h1: "beforeRead example_remote ANDROID True (windowOffset_or_0 (Some 0)) example_driver
              = Inr example_driver"
    by (simp add: beforeRead_def maybeBustAlert_def switchWindow_def example_driver_def
          platforms_distinct)
  have h2: "fst (executeRead example_driver) = Null"
    by (simp add: executeRead_def example_driver_def)
  have h3: "beforeRead example_remote ANDROID True (windowOffset_or_0 (Some 1)) no_cache_driver
              = Inr (no_cache_driver\<lparr>currentWindow := ''CDwindow-1''\<rparr>)"
    by (simp add: beforeRead_def maybeBustAlert_def switchWindow_def example_driver_def
          no_cache_driver_def platforms_distinct)
  have h4: "fst (executeRead (no_cache_driver\<lparr>currentWindow := ''CDwindow-1''\<rparr>)) = Null"
    by (simp add: executeRead_def no_cache_driver_def)
  have h5: "maybeBustAlert example_remote ANDROID True
              (no_cache_driver\<lparr>currentWindow := ''CDwindow-1''\<rparr>)
              = Inr (no_cache_driver\<lparr>currentWindow := ''CDwindow-1''\<rparr>)
            \<and> length (windowHandles (no_cache_driver\<lparr>currentWindow := ''CDwindow-1''\<rparr>))
                \<le> windowOffset_or_0 (Some 1) + 1"
    by (simp add: maybeBustAlert_def no_cache_driver_def example_driver_def)
  have h6: "beforeRead example_remote WINDOWS True (windowOffset_or_0 (Some 0)) example_driver
              = Inr example_driver"
    by (simp add: beforeRead_def maybeBustAlert_def switchWindow_def example_driver_def
          platforms_distinct)
  have a: "pollForEvents_call example_remote example_driver ANDROID True (Some 0) None
             = Recurse example_driver ANDROID True (Some 1) None
           \<and> pollForEvents example_remote example_driver ANDROID True (Some 0) None
             = pollForEvents example_remote example_driver ANDROID True (Some 1) None"
    using absent_off_browser [OF platforms_distinct(2) h1 h2, of None] by simp
  have b: "pollForEvents example_remote no_cache_driver ANDROID True (Some 1) None
             = Some (Inl CannotFindWindow)"
    using absent_off_browser [OF platforms_distinct(2) h3 h4, of None] h5 by blast
  have c: "pollForEvents example_remote example_driver WINDOWS True (Some 0) None
             = Some (Inl (CannotGetEventCache ''null''))"
    using absent_off_browser [OF platforms_distinct(9) h6 h2, of None]
    by (simp add: platforms_distinct)
  show ?thesis
    using a b c h1 h2 by (simp add: platforms_distinct)
qed

text \<open>
  C5 as stated fails on iOS: the platform is not the browser, the read returns the
  sentinel, and the call throws instead of trying the next window.
\<close>

theorem absent_on_ios_counterexample:
  "IOS \<noteq> BROWSER
   \<and> beforeRead example_remote IOS True 0 example_driver = Inr example_driver
   \<and> fst (executeRead example_driver) = Null
   \<and> pollForEvents_call example_remote example_driver IOS True (Some 0) None
       = Throw (CannotGetEventCache ''null'')
   \<and> pollForEvents_call example_remote example_driver IOS True (Some 0) None
       \<noteq> Recurse example_driver IOS True (Some (0 + 1)) None
   \<and> pollForEvents example_remote example_driver IOS True (Some 0) None
       = Some (Inl (CannotGetEventCache ''null''))"
proof -
  have c: "pollForEvents_call example_remote example_driver IOS True (Some 0) None
       = Throw (CannotGetEventCache ''null'')"
    by (simp add: pollForEvents_call_def beforeRead_def maybeBustAlert_def switchWindow_def
        executeRead_def afterRead_def example_driver_def platforms_distinct)
  show ?thesis
    using c pollForEvents_Throw [OF c]
    by (simp add: beforeRead_def maybeBustAlert_def switchWindow_def executeRead_def
        example_driver_def platforms_distinct)
qed

text \<open>
  C6. On the browser, when the read returns the sentinel: with retries left, the base
  test page is loaded and, once it has loaded, the call becomes the call with
  \<^verbatim>\<open>retries - 1\<close> and the same window offset; with no retries left the call fails
  with an error that carries the text of what was read instead.
\<close>

theorem browser_absent_reload_or_fail:
  assumes "beforeRead rem BROWSER skip (windowOffset_or_0 w) d = Inr d2"
      and "fst (executeRead d2) = Null"
  shows "(0 < retries_or_default r \<longrightarrow>
            (\<forall>d'. get rem BASE_TEST_PAGE d2 = Inr d' \<longrightarrow>
               pollForEvents_call rem d BROWSER skip w r
                 = Recurse d' BROWSER skip (Some (windowOffset_or_0 w))
                     (Some (retries_or_default r - 1))
             \<and> pollForEvents rem d BROWSER skip w r
                 = pollForEvents rem d' BROWSER skip (Some (windowOffset_or_0 w))
                     (Some (retries_or_default r - 1))))
       \<and> (retries_or_default r = 0 \<longrightarrow>
            pollForEvents_call rem d BROWSER skip w r = Throw (CannotGetEventCache ''null'')
          \<and> pollForEvents rem d BROWSER skip w r = Some (Inl (CannotGetEventCache ''null'')))"
proof (intro conjI impI allI)
  fix d'
  assume a: "0 < retries_or_default r" and g: "get rem BASE_TEST_PAGE d2 = Inr d'"
  show c: "pollForEvents_call rem d BROWSER skip w r
             = Recurse d' BROWSER skip (Some (windowOffset_or_0 w))
                 (Some (retries_or_default r - 1))"
    using assms a g by (simp add: call_absent afterRead_def)
  show "pollForEvents rem d BROWSER skip w r
          = pollForEvents rem d' BROWSER skip (Some (windowOffset_or_0 w))
              (Some (retries_or_default r - 1))"
    using c by (rule pollForEvents_Recurse)
next
  assume a: "retries_or_default r = 0"
  show c: "pollForEvents_call rem d BROWSER skip w r = Throw (CannotGetEventCache ''null'')"
    using assms a by (simp add: call_absent afterRead_def platforms_distinct)
  show "pollForEvents rem d BROWSER skip w r = Some (Inl (CannotGetEventCache ''null''))"
    using c by (rule pollForEvents_Throw)
qed

theorem browser_absent_reload_or_fail_witness:
  "beforeRead example_remote BROWSER True 0 example_driver = Inr example_driver
   \<and> fst (executeRead example_driver) = Null
   \<and> pollForEvents_call example_remote example_driver BROWSER True None None
       = Recurse (example_driver\<lparr>proxyCache :=
                    (proxyCache example_driver)(''CDwindow-0'' := Holds [''ready''])\<rparr>)
           BROWSER True (Some 0) (Some 1)
   \<and> pollForEvents example_remote example_driver BROWSER True None (Some 0)
       = Some (Inl (CannotGetEventCache ''null''))"
proof -
  have h1: "beforeRead example_remote BROWSER True (windowOffset_or_0 None) example_driver
              = Inr example_driver"
    by (simp add: beforeRead_def maybeBustAlert_def switchWindow_def)
  have h2: "fst (executeRead example_driver) = Null"
    by (simp add: executeRead_def example_driver_def)
  have g: "get example_remote BASE_TEST_PAGE example_driver
             = Inr (example_driver\<lparr>proxyCache :=
                      (proxyCache example_driver)(''CDwindow-0'' := Holds [''ready''])\<rparr>)"
    by (simp add: example_remote_def example_driver_def)
  have a: "pollForEvents_call example_remote example_driver BROWSER True None None
       = Recurse (example_driver\<lparr>proxyCache :=
                    (proxyCache example_driver)(''CDwindow-0'' := Holds [''ready''])\<rparr>)
           BROWSER True (Some 0) (Some 1)"
    using browser_absent_reload_or_fail [OF h1 h2, of None] g by simp
  have b: "pollForEvents example_remote example_driver BROWSER True None (Some 0)
       = Some (Inl (CannotGetEventCache ''null''))"
    using browser_absent_reload_or_fail [OF h1 h2, of "Some 0"] by simp
  show ?thesis using a b h1 h2 by simp
qed

text \<open>
  C7. On Android, once the dialog step is over, the call switches to the window at
  index \<^verbatim>\<open>windowOffset\<close> of the open handles and reads the cache there; when the
  offset is no index of the handle list it fails with
  "Cannot find a window with the event cache." and makes no further call.
\<close>

theorem android_switches_to_window_at_offset:
  assumes "maybeBustAlert rem ANDROID skip d = Inr d1"
  shows "(windowOffset_or_0 w < length (windowHandles d1) \<longrightarrow>
            beforeRead rem ANDROID skip (windowOffset_or_0 w) d
              = Inr (d1\<lparr>currentWindow := windowHandles d1 ! windowOffset_or_0 w\<rparr>)
          \<and> pollForEvents_call rem d ANDROID skip w r
              = afterRead rem ANDROID skip (windowOffset_or_0 w) (retries_or_default r)
                  (executeRead (d1\<lparr>currentWindow := windowHandles d1 ! windowOffset_or_0 w\<rparr>)))
       \<and> (length (windowHandles d1) \<le> windowOffset_or_0 w \<longrightarrow>
            pollForEvents_call rem d ANDROID skip w r = Throw CannotFindWindow
          \<and> pollForEvents rem d ANDROID skip w r = Some (Inl CannotFindWindow))"
proof (intro conjI impI)
  assume a: "windowOffset_or_0 w < length (windowHandles d1)"
  show b: "beforeRead rem ANDROID skip (windowOffset_or_0 w) d
             = Inr (d1\<lparr>currentWindow := windowHandles d1 ! windowOffset_or_0 w\<rparr>)"
    using assms a by (simp add: beforeRead_def switchWindow_def platforms_distinct)
  show "pollForEvents_call rem d ANDROID skip w r
          = afterRead rem ANDROID skip (windowOffset_or_0 w) (retries_or_default r)
              (executeRead (d1\<lparr>currentWindow := windowHandles d1 ! windowOffset_or_0 w\<rparr>))"
    using b by (simp add: pollForEvents_call_def)
next
  assume a: "length (windowHandles d1) \<le> windowOffset_or_0 w"
  show c: "pollForEvents_call rem d ANDROID skip w r = Throw CannotFindWindow"
    using assms a by (simp add: call_offset_out_of_range platforms_distinct)
  show "pollForEvents rem d ANDROID skip w r = Some (Inl CannotFindWindow)"
    using c by (rule pollForEvents_Throw)
qed

theorem android_switches_to_window_at_offset_witness:
  "maybeBustAlert example_remote ANDROID False example_driver = Inr example_driver
   \<and> beforeRead example_remote ANDROID False 1 example_driver
       = Inr (example_driver\<lparr>currentWindow := ''CDwindow-1''\<rparr>)
   \<and> pollForEvents example_remote example_driver ANDROID False (Some 1) None
       = Some (Inr ([''specDone''],
           example_driver\<lparr>currentWindow := ''CDwindow-1'',
             proxyCache := (proxyCache example_driver)(''CDwindow-1'' := Holds [])\<rparr>))
   \<and> pollForEvents example_remote example_driver ANDROID False (Some 2) None
       = Some (Inl CannotFindWindow)"
proof -
  have h: "maybeBustAlert example_remote ANDROID False example_driver = Inr example_driver"
    by (simp add: maybeBustAlert_def example_remote_def)
  have l: "windowOffset_or_0 (Some 1) < length (windowHandles example_driver)"
          "length (windowHandles example_driver) \<le> windowOffset_or_0 (Some 2)"
          "windowHandles example_driver ! 1 = ''CDwindow-1''"
    by (simp_all add: example_driver_def)
  have a: "beforeRead example_remote ANDROID False 1 example_driver
             = Inr (example_driver\<lparr>currentWindow := ''CDwindow-1''\<rparr>)"
    using android_switches_to_window_at_offset [OF h, of "Some 1" None] l by simp
  have "pollForEvents_call example_remote example_driver ANDROID False (Some 1) None
          = Return [''specDone'']
              (example_driver\<lparr>currentWindow := ''CDwindow-1'',
                 proxyCache := (proxyCache example_driver)(''CDwindow-1'' := Holds [])\<rparr>)"
    using android_switches_to_window_at_offset [OF h, of "Some 1" None] l
    by (simp add: afterRead_def executeRead_def example_driver_def)
  then have b: "pollForEvents example_remote example_driver ANDROID False (Some 1) None
       = Some (Inr ([''specDone''],
           example_driver\<lparr>currentWindow := ''CDwindow-1'',
             proxyCache := (proxyCache example_driver)(''CDwindow-1'' := Holds [])\<rparr>))"
    by (rule pollForEvents_Return)
  have c: "pollForEvents example_remote example_driver ANDROID False (Some 2) None
       = Some (Inl CannotFindWindow)"
    using android_switches_to_window_at_offset [OF h, of "Some 2" None] l by simp
  show ?thesis using h a b c by simp
qed

text \<open>On Android, with a session whose dialog step leaves the window handles alone,
  the polls end: the offset cannot pass the number of handles.\<close>

lemma android_poll_ends:
  assumes "\<And>d d1. maybeBustAlert rem ANDROID skip d = Inr d1
             \<Longrightarrow> windowHandles d1 = windowHandles d"
  shows "\<exists>res. pollForEvents rem d ANDROID skip (Some w) r = Some res"
proof (induction "length (windowHandles d) - w" arbitrary: d w r)
  case 0
  show ?case
  proof (cases "maybeBustAlert rem ANDROID skip d")
    case (Inl e)
    then have "pollForEvents_call rem d ANDROID skip (Some w) r = Throw e"
      by (simp add: pollForEvents_call_def beforeRead_def)
    then show ?thesis by (simp add: pollForEvents_Throw)
  next
    case (Inr d1)
    then have "length (windowHandles d1) \<le> windowOffset_or_0 (Some w)"
      using 0 assms by simp
    then have "pollForEvents_call rem d ANDROID skip (Some w) r = Throw CannotFindWindow"
      using Inr by (simp add: call_offset_out_of_range platforms_distinct)
    then show ?thesis by (simp add: pollForEvents_Throw)
  qed
next
  case (Suc n)
  show ?case
  proof (cases "maybeBustAlert rem ANDROID skip d")
    case (Inl e)
    then have "pollForEvents_call rem d ANDROID skip (Some w) r = Throw e"
      by (simp add: pollForEvents_call_def beforeRead_def)
    then show ?thesis by (simp add: pollForEvents_Throw)
  next
    case (Inr d1)
    have hs: "windowHandles d1 = windowHandles d" using Inr assms by simp
    then have lt: "w < length (windowHandles d1)" using Suc(2) by simp
    define d2 where "d2 = d1\<lparr>currentWindow := windowHandles d1 ! w\<rparr>"
    have br: "beforeRead rem ANDROID skip (windowOffset_or_0 (Some w)) d = Inr d2"
      using Inr lt by (simp add: beforeRead_def switchWindow_def platforms_distinct d2_def)
    obtain res d3 where rd: "executeRead d2 = (res, d3)" by (cases "executeRead d2")
    have h3: "windowHandles d3 = windowHandles d"
      using rd hs by (auto simp: executeRead_def d2_def split: cache.splits)
    have call: "pollForEvents_call rem d ANDROID skip (Some w) r
                  = afterRead rem ANDROID skip w (retries_or_default r) (res, d3)"
      using br rd by (simp add: pollForEvents_call_def)
    show ?thesis
    proof (cases res)
      case (EventArray evs)
      then have "pollForEvents_call rem d ANDROID skip (Some w) r = Return evs d3"
        using call by (simp add: afterRead_def)
      then show ?thesis by (simp add: pollForEvents_Return)
    next
      case Null
      then have "pollForEvents_call rem d ANDROID skip (Some w) r
                   = Recurse d3 ANDROID skip (Some (w + 1)) None"
        using call by (simp add: afterRead_def platforms_distinct)
      then have "pollForEvents rem d ANDROID skip (Some w) r
                   = pollForEvents rem d3 ANDROID skip (Some (w + 1)) None"
        by (rule pollForEvents_Recurse)
      moreover have "n = length (windowHandles d3) - (w + 1)" using Suc(2) h3 by simp
      ultimately show ?thesis using Suc(1) by simp
    next
      case (Other v)
      then have "pollForEvents_call rem d ANDROID skip (Some w) r
                   = Recurse d3 ANDROID skip (Some (w + 1)) None"
        using call by (simp add: afterRead_def platforms_distinct)
      then have "pollForEvents rem d ANDROID skip (Some w) r
                   = pollForEvents rem d3 ANDROID skip (Some (w + 1)) None"
        by (rule pollForEvents_Recurse)
      moreover have "n = length (windowHandles d3) - (w + 1)" using Suc(2) h3 by simp
      ultimately show ?thesis using Suc(1) by simp
    qed
  qed
qed

section \<open>Promise chains: the steps a job takes\<close>

lemma proceeds_refl: "proceeds P s s"
  by (simp add: proceeds_def)

lemma proceeds_trans: "proceeds P s s' \<Longrightarrow> proceeds P s' s'' \<Longrightarrow> proceeds P s s''"
  by (auto simp: proceeds_def)

lemma proceeds_did: "P x \<Longrightarrow> proceeds P s (did x s)"
  by (simp add: proceeds_def did_def)

lemma proceeds_field:
  "proceeds P s (s\<lparr>server := b\<rparr>)" "proceeds P s (s\<lparr>targetObj := t\<rparr>)"
  "proceeds P s (s\<lparr>runProcess := r\<rparr>)"
  by (simp_all add: proceeds_def)

lemma job_proceedsI: "(\<And>s. proceeds P s (snd (m s))) \<Longrightarrow> job_proceeds P m"
  by (simp add: job_proceeds_def)

lemma job_proceedsD: "job_proceeds P m \<Longrightarrow> proceeds P s (snd (m s))"
  by (simp add: job_proceeds_def)

lemma proceeds_Q: "job_proceeds P (Q v)"
  by (simp add: job_proceeds_def Q_def proceeds_refl)

lemma proceeds_throw: "job_proceeds P (throw e)"
  by (simp add: job_proceeds_def throw_def proceeds_refl)

lemma proceeds_calls: "P x \<Longrightarrow> job_proceeds P (calls x p)"
  by (simp add: job_proceeds_def calls_def proceeds_did)

lemma proceeds_calls_sync: "P x \<Longrightarrow> job_proceeds P (calls_sync x r)"
  by (simp add: job_proceeds_def calls_sync_def proceeds_did split: option.splits)

lemma proceeds_then:
  assumes "job_proceeds P m" and "\<And>v. job_proceeds P (f v)"
  shows "job_proceeds P (q_then m f)"
proof (rule job_proceedsI)
  fix s
  obtain p s' where ms: "m s = (p, s')" by (cases "m s")
  have a: "proceeds P s s'" using job_proceedsD [OF assms(1), of s] ms by simp
  show "proceeds P s (snd (q_then m f s))"
  proof (cases p)
    case (Fulfilled v)
    have "proceeds P s' (snd (f v s'))" using assms(2) by (rule job_proceedsD)
    then show ?thesis using a ms Fulfilled by (simp add: q_then_def proceeds_trans)
  qed (use a ms in \<open>simp_all add: q_then_def\<close>)
qed

lemma proceeds_catch:
  assumes "job_proceeds P m" and "\<And>e. job_proceeds P (h e)"
  shows "job_proceeds P (q_catch m h)"
proof (rule job_proceedsI)
  fix s
  obtain p s' where ms: "m s = (p, s')" by (cases "m s")
  have a: "proceeds P s s'" using job_proceedsD [OF assms(1), of s] ms by simp
  show "proceeds P s (snd (q_catch m h s))"
  proof (cases p)
    case (Rejected e)
    have "proceeds P s' (snd (h e s'))" using assms(2) by (rule job_proceedsD)
    then show ?thesis using a ms Rejected by (simp add: q_catch_def proceeds_trans)
  qed (use a ms in \<open>simp_all add: q_catch_def\<close>)
qed

lemma proceeds_fin:
  assumes "job_proceeds P m" and "job_proceeds P c"
  shows "job_proceeds P (q_fin m c)"
proof (rule job_proceedsI)
  fix s
  obtain p s' where ms: "m s = (p, s')" by (cases "m s")
  obtain r s'' where cs: "c s' = (r, s'')" by (cases "c s'")
  have a: "proceeds P s s'" using job_proceedsD [OF assms(1), of s] ms by simp
  have b: "proceeds P s' s''" using job_proceedsD [OF assms(2), of s'] cs by simp
  have c: "proceeds P s s''" using a b by (rule proceeds_trans)
  show "proceeds P s (snd (q_fin m c s))"
    using a c ms cs by (cases p; cases r) (simp_all add: q_fin_def)
qed

lemma proceeds_timeout: "job_proceeds P m \<Longrightarrow> job_proceeds P (q_timeout ms m)"
  by (auto simp: job_proceeds_def q_timeout_def split: prod.splits promise.splits)
     (metis snd_conv)+

lemma proceeds_all:
  assumes "job_proceeds P j1" and "job_proceeds P j2"
  shows "job_proceeds P (q_all j1 j2)"
proof (rule job_proceedsI)
  fix s
  obtain p1 s1 where a: "j1 s = (p1, s1)" by (cases "j1 s")
  obtain p2 s2 where b: "j2 s1 = (p2, s2)" by (cases "j2 s1")
  have "proceeds P s s1" using job_proceedsD [OF assms(1), of s] a by simp
  moreover have "proceeds P s1 s2" using job_proceedsD [OF assms(2), of s1] b by simp
  ultimately show "proceeds P s (snd (q_all j1 j2 s))"
    using a b by (simp add: q_all_def proceeds_trans)
qed

lemma proceeds_in_callback:
  assumes "\<And>s. proceeds P s (snd (f s))"
  shows "job_proceeds P (in_callback f)"
proof (rule job_proceedsI)
  fix s
  show "proceeds P s (snd (in_callback f s))"
    using assms [of s] by (cases "f s") (auto simp: in_callback_def split: sum.splits)
qed

lemma proceeds_weaken: "(\<And>x. P x \<Longrightarrow> P' x) \<Longrightarrow> proceeds P s s' \<Longrightarrow> proceeds P' s s'"
  by (auto simp: proceeds_def list_all_iff)

lemma proceeds_mono: "(\<And>x. P x \<Longrightarrow> P' x) \<Longrightarrow> job_proceeds P m \<Longrightarrow> job_proceeds P' m"
  unfolding job_proceeds_def by (blast intro: proceeds_weaken)

lemma setPermissions_proceeds:
  "P UpdatePermissions \<Longrightarrow> job_proceeds P (setPermissions cfg w)"
  by (simp add: setPermissions_def proceeds_calls_sync proceeds_Q)

lemma maybeRunFileTransferServer_proceeds:
  assumes "\<And>name. P (StartFileTransferServer name)"
  shows "job_proceeds P (maybeRunFileTransferServer cfg w)"
proof (rule job_proceedsI)
  fix s
  show "proceeds P s (snd (maybeRunFileTransferServer cfg w s))"
    using assms
    by (auto simp: maybeRunFileTransferServer_def proceeds_refl calls_def proceeds_did
             split: option.splits)
qed

lemma getCommandForStartingTests_proceeds:
  assumes "P ChooseTarget"
  shows "job_proceeds P (getCommandForStartingTests cfg w)"
proof (rule job_proceedsI)
  fix s
  have t: "job_proceeds P
             (q_then (calls ChooseTarget (chooseTarget w))
                (\<lambda>t s'. (Fulfilled (f t), s'\<lparr>targetObj := Some t\<rparr>)))" for f :: "targetObj_t \<Rightarrow> string"
    by (intro proceeds_then proceeds_calls assms job_proceedsI) (simp add: proceeds_field)
  show "proceeds P s (snd (getCommandForStartingTests cfg w s))"
    by (auto simp: getCommandForStartingTests_def Let_def Q_def proceeds_refl
             split: option.splits intro: job_proceedsD [OF t])
qed

lemma launchCommand_proceeds:
  assumes "\<And>c. P (ExecPromise c)" and "\<And>c. P (CpExec c)"
  shows "job_proceeds P (launchCommand cfg w command)"
proof (rule job_proceedsI)
  fix s
  show "proceeds P s (snd (launchCommand cfg w command s))"
    using assms
    by (auto simp: launchCommand_def calls_def proceeds_did
             intro: proceeds_trans [OF proceeds_field(3) proceeds_did])
qed

lemma exitCallback_proceeds: "proceeds P s (exitCallback w s)"
  by (simp add: exitCallback_def proceeds_refl proceeds_field split: option.splits)

lemma mainTestsVerdict_proceeds:
  assumes "shouldWaitForTestResult cfg \<Longrightarrow> P WaitForConnection \<and> P WaitForTests"
  shows "job_proceeds P (mainTestsVerdict cfg w)"
proof (rule job_proceedsI)
  fix s
  have "proceeds P s (exitCallback w (did WaitForTests (did WaitForConnection s)))"
    if "shouldWaitForTestResult cfg"
    using assms [OF that]
    by (blast intro: proceeds_trans proceeds_did exitCallback_proceeds)
  then show "proceeds P s (snd (mainTestsVerdict cfg w s))"
    by (simp add: mainTestsVerdict_def proceeds_refl)
qed

lemma killRunProcess_proceeds: "P KillProcess \<Longrightarrow> job_proceeds P killRunProcess"
  by (auto simp: job_proceeds_def killRunProcess_def proceeds_refl proceeds_did
           split: option.splits)

lemma runLocalTests_proceeds: "job_proceeds (local_step cfg) (runLocalTests cfg w)"
proof (rule job_proceedsI)
  fix s :: runner
  let ?s = "s\<lparr>runProcess := None\<rparr>"
  have "job_proceeds (local_step cfg)
          (q_fin
             (q_then
                (q_then
                   (q_then
                      (q_then (Q ()) (\<lambda>u. maybeRunFileTransferServer cfg w))
                      (\<lambda>u. getCommandForStartingTests cfg w))
                   (\<lambda>command.
                      q_then (setPermissions cfg w)
                        (\<lambda>u. q_all (launchCommand cfg w command) (mainTestsVerdict cfg w))))
                (\<lambda>results. Q (snd results)))
             killRunProcess)"
    by (intro proceeds_fin proceeds_then proceeds_all proceeds_Q
          maybeRunFileTransferServer_proceeds getCommandForStartingTests_proceeds
          setPermissions_proceeds launchCommand_proceeds mainTestsVerdict_proceeds
          killRunProcess_proceeds) simp_all
  then have "proceeds (local_step cfg) ?s (snd (runLocalTests cfg w s))"
    by (auto simp: runLocalTests_def Let_def Q_def proceeds_refl dest: job_proceedsD)
  then show "proceeds (local_step cfg) s (snd (runLocalTests cfg w s))"
    by (rule proceeds_trans [OF proceeds_field(3)])
qed

section \<open>Evaluating a run\<close>

text \<open>The definitions that unfold a run on a given configuration and world.\<close>

lemmas run_defs =
  run_def checkConfig_def phases_def guarded_phases_def createAndPrepare_def maybeStartServer_def
  configureAndRunTests_def runTests_def runLocalTests_def runAppiumTests_def
  collectDataAndCleanUp_def cleanUpProject_def collectDeviceLogs_def uninstallApp_def
  killEmulatorProcess_def maybeRunFileTransferServer_def getCommandForStartingTests_def
  setPermissions_def launchCommand_def mainTestsVerdict_def killRunProcess_def
  execPromise_def baseCommand_def noTarget_def shouldWaitForTestResult_def
  q_then_def q_catch_def q_fin_def q_timeout_def q_all_def Q_def throw_def calls_def
  calls_sync_def in_callback_def did_def new_runner_def Let_def exitCallback_def
  waitForTestResult_def race_on_def race_start_def
  TEST_PASSED_def TEST_FAILED_def PARAMEDIC_COMMON_ARGS_def
  ANDROID_def IOS_def BROWSER_def WINDOWS_def

lemmas example_defs =
  example_config_def example_world_def build_config_def browser_build_config_def
  failing_world_def

section \<open>The Appium phase and the verdict of the tests\<close>

text \<open>
  C10. \<^verbatim>\<open>runAppiumTests\<close> returns a promise fulfilled with \<^verbatim>\<open>TEST_PASSED\<close>, having done
  nothing but log its banner, when the action is "build", when the Appium tests are not
  configured to run, or when the platform is neither Android nor iOS. Past these three
  checks, a local run (\<^verbatim>\<open>useSauce\<close> false) with no resolved target device throws
  "Cannot determine local device name for Appium" instead of skipping; and with a target
  (or on the device farm, where \<^verbatim>\<open>this.paramedicSauceLabs\<close> has been created), when the
  temp project exists and no Appium test files are found, it skips again with
  \<^verbatim>\<open>TEST_PASSED\<close>. Whenever the Appium phase resolves to \<^verbatim>\<open>TEST_PASSED\<close>, the verdict
  of \<^verbatim>\<open>runTests\<close> is the verdict of the main tests.
\<close>

theorem appium_phase_skipped_or_throws:
  "(getAction cfg = ''build'' \<or> \<not> wantAppiumTests cfg
      \<or> (getPlatformId cfg \<noteq> ANDROID \<and> getPlatformId cfg \<noteq> IOS)
      \<longrightarrow> runAppiumTests cfg w useSauce s = (Inr (Fulfilled TEST_PASSED), did (Banner 5) s))
   \<and> (getAction cfg \<noteq> ''build'' \<and> wantAppiumTests cfg
        \<and> (getPlatformId cfg = ANDROID \<or> getPlatformId cfg = IOS)
      \<longrightarrow> (\<not> useSauce \<and> noTarget s
              \<longrightarrow> runAppiumTests cfg w useSauce s = (Inl NoLocalDeviceName, did (Banner 5) s))
        \<and> ((useSauce \<or> \<not> noTarget s) \<and> tempFolder s \<noteq> None
             \<and> (useSauce \<longrightarrow> paramedicSauceLabs s) \<and> testPaths w = Some []
              \<longrightarrow> runAppiumTests cfg w useSauce s
                    = (Inr (Fulfilled TEST_PASSED), did (Banner 5) s)))
   \<and> (\<forall>m s1.
         (if shouldUseSauce cfg then calls RunSauceTests (runSauceTests w)
          else runLocalTests cfg w) (did (Banner 4) s) = (Fulfilled m, s1)
         \<and> fst (runAppiumTests cfg w (shouldUseSauce cfg) s1) = Inr (Fulfilled TEST_PASSED)
       \<longrightarrow> fst (runTests cfg w s) = Fulfilled m)"
proof (intro conjI impI allI)
  assume "getAction cfg = ''build'' \<or> \<not> wantAppiumTests cfg
      \<or> (getPlatformId cfg \<noteq> ANDROID \<and> getPlatformId cfg \<noteq> IOS)"
  then show "runAppiumTests cfg w useSauce s = (Inr (Fulfilled TEST_PASSED), did (Banner 5) s)"
    by (auto simp: runAppiumTests_def Let_def)
next
  assume a: "getAction cfg \<noteq> ''build'' \<and> wantAppiumTests cfg
        \<and> (getPlatformId cfg = ANDROID \<or> getPlatformId cfg = IOS)"
     and b: "\<not> useSauce \<and> noTarget s"
  have "noTarget (did (Banner 5) s)" using b by (simp add: noTarget_def did_def)
  then show "runAppiumTests cfg w useSauce s = (Inl NoLocalDeviceName, did (Banner 5) s)"
    using a b by (auto simp: runAppiumTests_def Let_def)
next
  assume a: "getAction cfg \<noteq> ''build'' \<and> wantAppiumTests cfg
        \<and> (getPlatformId cfg = ANDROID \<or> getPlatformId cfg = IOS)"
     and b: "(useSauce \<or> \<not> noTarget s) \<and> tempFolder s \<noteq> None
             \<and> (useSauce \<longrightarrow> paramedicSauceLabs s) \<and> testPaths w = Some []"
  have "noTarget (did (Banner 5) s) = noTarget s" by (simp add: noTarget_def did_def)
  moreover have "tempFolder (did (Banner 5) s) = tempFolder s" by (simp add: did_def)
  moreover have "paramedicSauceLabs (did (Banner 5) s) = paramedicSauceLabs s"
    by (simp add: did_def)
  ultimately show "runAppiumTests cfg w useSauce s = (Inr (Fulfilled TEST_PASSED), did (Banner 5) s)"
    using a b by (auto simp: runAppiumTests_def Let_def)
next
  fix m s1
  assume a: "(if shouldUseSauce cfg then calls RunSauceTests (runSauceTests w)
          else runLocalTests cfg w) (did (Banner 4) s) = (Fulfilled m, s1)
         \<and> fst (runAppiumTests cfg w (shouldUseSauce cfg) s1) = Inr (Fulfilled TEST_PASSED)"
  obtain s2 where r: "runAppiumTests cfg w (shouldUseSauce cfg) s1 = (Inr (Fulfilled TEST_PASSED), s2)"
    using a by (cases "runAppiumTests cfg w (shouldUseSauce cfg) s1") auto
  show "fst (runTests cfg w s) = Fulfilled m"
  proof (cases "shouldUseSauce cfg")
    case True
    then show ?thesis using a r
      by (simp add: runTests_def Let_def q_then_def in_callback_def Q_def TEST_PASSED_def)
  next
    case False
    then show ?thesis using a r
      by (simp add: runTests_def Let_def q_then_def in_callback_def Q_def TEST_PASSED_def)
  qed
qed

theorem appium_phase_skipped_or_throws_witness:
  "runAppiumTests build_config example_world False new_runner
     = (Inr (Fulfilled TEST_PASSED), did (Banner 5) new_runner)
   \<and> runAppiumTests example_config example_world False new_runner
     = (Inl NoLocalDeviceName, did (Banner 5) new_runner)
   \<and> runAppiumTests example_config (example_world\<lparr>testPaths := Some []\<rparr>) False
        (new_runner\<lparr>tempFolder := Some ''/tmp/tmp-1'',
                     targetObj := Some \<lparr>target = ''emulator-5554'', simId = None\<rparr>\<rparr>)
     = (Inr (Fulfilled TEST_PASSED),
        did (Banner 5)
          (new_runner\<lparr>tempFolder := Some ''/tmp/tmp-1'',
                       targetObj := Some \<lparr>target = ''emulator-5554'', simId = None\<rparr>\<rparr>))
   \<and> runAppiumTests example_config (example_world\<lparr>testPaths := Some []\<rparr>) True
        (new_runner\<lparr>tempFolder := Some ''/tmp/tmp-1'', paramedicSauceLabs := True\<rparr>)
     = (Inr (Fulfilled TEST_PASSED),
        did (Banner 5) (new_runner\<lparr>tempFolder := Some ''/tmp/tmp-1'', paramedicSauceLabs := True\<rparr>))
   \<and> fst (runTests build_config example_world new_runner) = Fulfilled True"
proof -
  let ?s = "new_runner\<lparr>tempFolder := Some ''/tmp/tmp-1'', paramedicSauceLabs := True\<rparr>"
  let ?t = "new_runner\<lparr>tempFolder := Some ''/tmp/tmp-1'',
                         targetObj := Some \<lparr>target = ''emulator-5554'', simId = None\<rparr>\<rparr>"
  have 1: "runAppiumTests build_config example_world False new_runner
             = (Inr (Fulfilled TEST_PASSED), did (Banner 5) new_runner)"
    using appium_phase_skipped_or_throws [of build_config example_world False new_runner]
    by (simp add: example_defs)
  have 2: "runAppiumTests example_config example_world False new_runner
             = (Inl NoLocalDeviceName, did (Banner 5) new_runner)"
    using appium_phase_skipped_or_throws [of example_config example_world False new_runner]
    by (simp add: example_defs noTarget_def new_runner_def)
  have 3: "runAppiumTests example_config (example_world\<lparr>testPaths := Some []\<rparr>) True ?s
             = (Inr (Fulfilled TEST_PASSED), did (Banner 5) ?s)"
    using appium_phase_skipped_or_throws
            [of example_config "example_world\<lparr>testPaths := Some []\<rparr>" True ?s]
    by (simp add: example_defs new_runner_def)
  have 5: "runAppiumTests example_config (example_world\<lparr>testPaths := Some []\<rparr>) False ?t
             = (Inr (Fulfilled TEST_PASSED), did (Banner 5) ?t)"
    using appium_phase_skipped_or_throws
            [of example_config "example_world\<lparr>testPaths := Some []\<rparr>" False ?t]
    by (simp add: example_defs new_runner_def noTarget_def)
  have a: "fst (runLocalTests build_config example_world (did (Banner 4) new_runner))
             = Fulfilled True"
    by (simp add: run_defs example_defs sublist_code)
  have b: "fst (runAppiumTests build_config example_world False s) = Inr (Fulfilled TEST_PASSED)"
    for s
    using appium_phase_skipped_or_throws [of build_config example_world False s]
    by (simp add: example_defs)
  have n: "\<not> shouldUseSauce build_config" by (simp add: example_defs)
  have h: "(if shouldUseSauce build_config
            then calls RunSauceTests (runSauceTests example_world)
            else runLocalTests build_config example_world) (did (Banner 4) new_runner)
             = (Fulfilled True,
                snd (runLocalTests build_config example_world (did (Banner 4) new_runner)))
           \<and> fst (runAppiumTests build_config example_world (shouldUseSauce build_config)
                   (snd (runLocalTests build_config example_world (did (Banner 4) new_runner))))
             = Inr (Fulfilled TEST_PASSED)"
    using n a b by (simp add: prod_eq_iff)
  have 4: "fst (runTests build_config example_world new_runner) = Fulfilled True"
    by (rule appium_phase_skipped_or_throws
               [THEN conjunct2, THEN conjunct2, rule_format, OF h])
  show ?thesis using 1 2 3 4 5 by simp
qed

text \<open>
  C9. When the main-test phase (on the device farm or locally) resolves to a verdict
  and the Appium phase that follows resolves to a verdict, \<^verbatim>\<open>runTests\<close> resolves to
  their conjunction: passed exactly when both passed.
\<close>

theorem runTests_is_conjunction:
  assumes "(if shouldUseSauce cfg then calls RunSauceTests (runSauceTests w)
            else runLocalTests cfg w) (did (Banner 4) s) = (Fulfilled m, s1)"
      and "runAppiumTests cfg w (shouldUseSauce cfg) s1 = (Inr (Fulfilled a), s2)"
  shows "runTests cfg w s = (Fulfilled (m \<and> a), s2)
         \<and> (fst (runTests cfg w s) = Fulfilled TEST_PASSED
              \<longleftrightarrow> m = TEST_PASSED \<and> a = TEST_PASSED)"
proof (cases "shouldUseSauce cfg")
  case True
  then show ?thesis using assms
    by (simp add: runTests_def Let_def q_then_def in_callback_def Q_def TEST_PASSED_def)
next
  case False
  then show ?thesis using assms
    by (simp add: runTests_def Let_def q_then_def in_callback_def Q_def TEST_PASSED_def)
qed

theorem runTests_is_conjunction_witness:
  "fst (runTests example_config example_world
          (new_runner\<lparr>tempFolder := Some ''/tmp/tmp-1'', server := True\<rparr>)) = Fulfilled True
   \<and> fst (runTests example_config (example_world\<lparr>appiumRunTests := Fulfilled False\<rparr>)
          (new_runner\<lparr>tempFolder := Some ''/tmp/tmp-1'', server := True\<rparr>)) = Fulfilled False"
proof -
  let ?s = "new_runner\<lparr>tempFolder := Some ''/tmp/tmp-1'', server := True\<rparr>"
  let ?w = "example_world\<lparr>appiumRunTests := Fulfilled False\<rparr>"
  let ?s1 = "snd (runLocalTests example_config example_world (did (Banner 4) ?s))"
  let ?t1 = "snd (runLocalTests example_config ?w (did (Banner 4) ?s))"
  have n: "\<not> shouldUseSauce example_config" by (simp add: example_defs)
  have a: "fst (runLocalTests example_config example_world (did (Banner 4) ?s)) = Fulfilled True"
          "fst (runLocalTests example_config ?w (did (Banner 4) ?s)) = Fulfilled True"
    by (simp_all add: run_defs example_defs sublist_code)
  have b: "fst (runAppiumTests example_config example_world False ?s1) = Inr (Fulfilled True)"
          "fst (runAppiumTests example_config ?w False ?t1) = Inr (Fulfilled False)"
    by (simp_all add: run_defs example_defs sublist_code)
  have h1: "(if shouldUseSauce example_config then calls RunSauceTests (runSauceTests example_world)
             else runLocalTests example_config example_world) (did (Banner 4) ?s)
              = (Fulfilled True, ?s1)"
    using n a(1) by (simp add: prod_eq_iff)
  have h2: "runAppiumTests example_config example_world (shouldUseSauce example_config) ?s1
              = (Inr (Fulfilled True),
                 snd (runAppiumTests example_config example_world False ?s1))"
    using n b(1) by (simp add: prod_eq_iff)
  have k1: "(if shouldUseSauce example_config then calls RunSauceTests (runSauceTests ?w)
             else runLocalTests example_config ?w) (did (Banner 4) ?s)
              = (Fulfilled True, ?t1)"
    using n a(2) by (simp add: prod_eq_iff)
  have k2: "runAppiumTests example_config ?w (shouldUseSauce example_config) ?t1
              = (Inr (Fulfilled False), snd (runAppiumTests example_config ?w False ?t1))"
    using n b(2) by (simp add: prod_eq_iff)
  show ?thesis
    using runTests_is_conjunction [OF h1 h2] runTests_is_conjunction [OF k1 k2] by simp
qed

section \<open>The action "build"\<close>

lemma build_not_waited_for: "getAction cfg = ''build'' \<Longrightarrow> \<not> shouldWaitForTestResult cfg"
  by (simp add: shouldWaitForTestResult_def)

lemma runLocalTests_build:
  assumes b: "getAction cfg = ''build''"
      and m: "wantMainTests cfg \<or> getPlatformId cfg = ANDROID"
      and f: "maybeRunFileTransferServer cfg w (s\<lparr>runProcess := None\<rparr>) = (Fulfilled (), s1)"
      and p: "setPermissions cfg w s1 = (Fulfilled (), s2)"
  shows "fst (runLocalTests cfg w s) =
           (if getPlatformId cfg = BROWSER then Fulfilled TEST_PASSED
            else case execPromise w (join '' '' (baseCommand cfg)) of
                   Fulfilled u \<Rightarrow> Fulfilled TEST_PASSED
                 | Rejected e \<Rightarrow> Rejected e
                 | Pending \<Rightarrow> Pending)"
proof -
  have g: "getCommandForStartingTests cfg w s1 = (Fulfilled (join '' '' (baseCommand cfg)), s1)"
    using b by (simp add: getCommandForStartingTests_def Let_def Q_def)
  have v: "mainTestsVerdict cfg w t = (Fulfilled TEST_PASSED, t)" for t
    using b by (simp add: mainTestsVerdict_def build_not_waited_for)
  show ?thesis
  proof (cases "getPlatformId cfg = BROWSER")
    case True
    then show ?thesis
      using m f g p v
      by (simp add: runLocalTests_def Let_def q_fin_def q_then_def Q_def q_all_def
            launchCommand_def killRunProcess_def platforms_distinct
            split: option.splits)
  next
    case False
    then show ?thesis
      using m f g p v
      by (cases "execPromise w (join '' '' (baseCommand cfg))")
         (auto simp: runLocalTests_def Let_def q_fin_def q_then_def Q_def q_all_def
            launchCommand_def killRunProcess_def calls_def
            split: option.splits)
  qed
qed

lemma execPromise_Fulfilled_iff: "execPromise w c = Fulfilled () \<longleftrightarrow> exec_exit w c = Some 0"
  by (simp add: execPromise_def split: option.splits)

text \<open>
  C3 (as amended). \<^verbatim>\<open>shouldWaitForTestResult\<close> holds exactly when the action starts
  with "run" or with "emulate". With the action "build" it is false and
  \<^verbatim>\<open>runLocalTests\<close> never starts the two waits. When the main tests are skipped off
  Android, no command is launched (no step is taken) and the result is passed. Otherwise, once the steps
  before the launch have succeeded: off the browser the result is passed exactly when
  the launched command exits with code zero; on the browser the command is spawned and
  not waited for, and the result is passed whatever its exit code.
\<close>

theorem build_never_waits:
  "(shouldWaitForTestResult cfg
      \<longleftrightarrow> prefix ''run'' (getAction cfg) \<or> prefix ''emulate'' (getAction cfg))
   \<and> (getAction cfg = ''build'' \<longrightarrow>
        \<not> shouldWaitForTestResult cfg
      \<and> job_proceeds (\<lambda>x. \<not> is_wait x) (runLocalTests cfg w)
      \<and> (\<not> wantMainTests cfg \<and> getPlatformId cfg \<noteq> ANDROID
            \<longrightarrow> fst (runLocalTests cfg w s) = Fulfilled TEST_PASSED
                \<and> trace (snd (runLocalTests cfg w s)) = trace s)
      \<and> ((wantMainTests cfg \<or> getPlatformId cfg = ANDROID)
           \<and> maybeRunFileTransferServer cfg w (s\<lparr>runProcess := None\<rparr>) = (Fulfilled (), s1)
           \<and> setPermissions cfg w s1 = (Fulfilled (), s2)
          \<longrightarrow> (getPlatformId cfg \<noteq> BROWSER
                 \<longrightarrow> (fst (runLocalTests cfg w s) = Fulfilled TEST_PASSED
                        \<longleftrightarrow> exec_exit w (join '' '' (baseCommand cfg)) = Some 0))
             \<and> (getPlatformId cfg = BROWSER
                 \<longrightarrow> fst (runLocalTests cfg w s) = Fulfilled TEST_PASSED)))"
proof (intro conjI impI)
  show "shouldWaitForTestResult cfg
          \<longleftrightarrow> prefix ''run'' (getAction cfg) \<or> prefix ''emulate'' (getAction cfg)"
    by (simp add: shouldWaitForTestResult_def)
next
  assume b: "getAction cfg = ''build''"
  then show n: "\<not> shouldWaitForTestResult cfg" by (rule build_not_waited_for)
  have lw: "local_step cfg x \<Longrightarrow> \<not> is_wait x" for x
    using n by (cases x) simp_all
  show "job_proceeds (\<lambda>x. \<not> is_wait x) (runLocalTests cfg w)"
    by (rule proceeds_mono [where P = "local_step cfg", OF lw runLocalTests_proceeds])
next
  assume k: "\<not> wantMainTests cfg \<and> getPlatformId cfg \<noteq> ANDROID"
  then show "fst (runLocalTests cfg w s) = Fulfilled TEST_PASSED"
    by (simp add: runLocalTests_def Let_def Q_def)
  show "trace (snd (runLocalTests cfg w s)) = trace s"
    using k by (simp add: runLocalTests_def Let_def Q_def)
next
  assume b: "getAction cfg = ''build''"
     and h: "(wantMainTests cfg \<or> getPlatformId cfg = ANDROID)
           \<and> maybeRunFileTransferServer cfg w (s\<lparr>runProcess := None\<rparr>) = (Fulfilled (), s1)
           \<and> setPermissions cfg w s1 = (Fulfilled (), s2)"
     and nb: "getPlatformId cfg \<noteq> BROWSER"
  have "fst (runLocalTests cfg w s) =
          (case execPromise w (join '' '' (baseCommand cfg)) of
             Fulfilled u \<Rightarrow> Fulfilled TEST_PASSED
           | Rejected e \<Rightarrow> Rejected e
           | Pending \<Rightarrow> Pending)"
    using runLocalTests_build [of cfg w s s1 s2] b h nb by simp
  then show "fst (runLocalTests cfg w s) = Fulfilled TEST_PASSED
               \<longleftrightarrow> exec_exit w (join '' '' (baseCommand cfg)) = Some 0"
    by (simp add: execPromise_Fulfilled_iff [symmetric] split: promise.splits)
next
  assume b: "getAction cfg = ''build''"
     and h: "(wantMainTests cfg \<or> getPlatformId cfg = ANDROID)
           \<and> maybeRunFileTransferServer cfg w (s\<lparr>runProcess := None\<rparr>) = (Fulfilled (), s1)
           \<and> setPermissions cfg w s1 = (Fulfilled (), s2)"
     and nb: "getPlatformId cfg = BROWSER"
  show "fst (runLocalTests cfg w s) = Fulfilled TEST_PASSED"
    using runLocalTests_build [of cfg w s s1 s2] b h nb by simp
qed

theorem build_never_waits_witness:
  "getAction build_config = ''build''
   \<and> \<not> shouldWaitForTestResult build_config
   \<and> exec_exit example_world (join '' '' (baseCommand build_config)) = Some 0
   \<and> fst (runLocalTests build_config example_world new_runner) = Fulfilled TEST_PASSED
   \<and> exec_exit failing_world (join '' '' (baseCommand build_config)) = Some 1
   \<and> fst (runLocalTests build_config failing_world new_runner) \<noteq> Fulfilled TEST_PASSED
   \<and> fst (runLocalTests browser_build_config failing_world new_runner) = Fulfilled TEST_PASSED"
proof -
  have b: "getAction build_config = ''build''" "getAction browser_build_config = ''build''"
    by (simp_all add: example_defs)
  have m: "wantMainTests build_config \<or> getPlatformId build_config = ANDROID"
          "wantMainTests browser_build_config \<or> getPlatformId browser_build_config = ANDROID"
    by (simp_all add: example_defs)
  have f: "maybeRunFileTransferServer build_config w (new_runner\<lparr>runProcess := None\<rparr>)
             = (Fulfilled (), new_runner)"
          "maybeRunFileTransferServer browser_build_config w (new_runner\<lparr>runProcess := None\<rparr>)
             = (Fulfilled (), new_runner)" for w
    by (simp_all add: maybeRunFileTransferServer_def example_defs sublist_code new_runner_def)
  have p: "setPermissions build_config w new_runner = (Fulfilled (), new_runner)"
          "setPermissions browser_build_config w new_runner = (Fulfilled (), new_runner)" for w
    by (simp_all add: setPermissions_def example_defs Q_def platforms_distinct)
  have n: "getPlatformId build_config \<noteq> BROWSER" "getPlatformId browser_build_config = BROWSER"
    by (simp_all add: example_defs platforms_distinct)
  have e: "exec_exit example_world (join '' '' (baseCommand build_config)) = Some 0"
          "exec_exit failing_world (join '' '' (baseCommand build_config)) = Some 1"
    by (simp_all add: example_defs)
  have 1: "\<not> shouldWaitForTestResult build_config"
    using build_never_waits [of build_config] b by simp
  have 2: "fst (runLocalTests build_config example_world new_runner) = Fulfilled TEST_PASSED"
    using build_never_waits [of build_config example_world new_runner new_runner new_runner]
          b m f p n e by simp
  have 3: "fst (runLocalTests build_config failing_world new_runner) \<noteq> Fulfilled TEST_PASSED"
    using build_never_waits [of build_config failing_world new_runner new_runner new_runner]
          b m f p n e by simp
  have 4: "fst (runLocalTests browser_build_config failing_world new_runner)
             = Fulfilled TEST_PASSED"
    using build_never_waits [of browser_build_config failing_world new_runner new_runner new_runner]
          b m f p n by (simp add: platforms_distinct example_defs)
  show ?thesis using b 1 2 3 4 e by simp
qed

text \<open>
  C3 as stated fails on the browser: the action is "build", the launched command exits
  with code 1, and the result of \<^verbatim>\<open>runLocalTests\<close>, and of the whole run, is passed.
\<close>

theorem browser_build_counterexample:
  "getAction browser_build_config = ''build''
   \<and> exec_exit failing_world (join '' '' (baseCommand browser_build_config)) = Some 1
   \<and> fst (runLocalTests browser_build_config failing_world
            (new_runner\<lparr>tempFolder := Some ''/tmp/tmp-1'', server := True\<rparr>))
       = Fulfilled TEST_PASSED
   \<and> fst (run browser_build_config failing_world) = Inr (Fulfilled TEST_PASSED)"
  by (simp add: run_defs example_defs sublist_code)

text \<open>
  On the browser the spawned command is kept in \<^verbatim>\<open>runProcess\<close>; a build does not wait, so
  the \<^verbatim>\<open>.fin\<close> of \<^verbatim>\<open>runLocalTests\<close> finds it there and kills the process, whatever its
  exit code.
\<close>

lemma browser_build_kills_the_process:
  "trace (snd (run browser_build_config failing_world))
     = [Banner 0, CreateTempProject, Pushd ''/tmp/tmp-1'', PrepareProjectToRunTests,
        StartServer, WriteMedicJson, Banner 4,
        CpExec (join '' '' (baseCommand browser_build_config)), KillProcess, Banner 5,
        Banner 6, EnterCleanUpProject, ServerCleanUp, Popd, Rm ''/tmp/tmp-1'']"
  by (simp add: run_defs example_defs sublist_code)

section \<open>The phases of a run\<close>

lemma not_cleanup_local: "local_step cfg x \<Longrightarrow> \<not> is_cleanup x"
  by (cases x) simp_all

lemma runAppiumTests_proceeds:
  "proceeds (\<lambda>x. \<not> is_cleanup x) s (snd (runAppiumTests cfg w useSauce s))"
proof -
  let ?P = "\<lambda>x. \<not> is_cleanup x"
  have c: "job_proceeds ?P
             (q_then
                (q_then
                   (q_then (Q ()) (\<lambda>u. calls AppiumPrepareApp (appiumPrepareApp w)))
                   (\<lambda>u. if useSauce
                         then q_then (calls PackageApp (packageApp w))
                                (\<lambda>u. calls UploadApp (uploadApp w))
                         else Q ()))
                (\<lambda>u. calls (AppiumRunTests useSauce) (appiumRunTests w)))"
    by (intro proceeds_then proceeds_Q proceeds_calls) (simp_all add: proceeds_then proceeds_Q proceeds_calls)
  have b: "proceeds ?P s (did (Banner 5) s)" by (simp add: proceeds_did)
  show ?thesis
    using proceeds_trans [OF b job_proceedsD [OF c, of "did (Banner 5) s"]] b
    by (auto simp: runAppiumTests_def Let_def split: option.splits prod.splits)
qed

lemma runTests_proceeds: "job_proceeds (\<lambda>x. \<not> is_cleanup x) (runTests cfg w)"
proof (rule job_proceedsI)
  fix s
  let ?P = "\<lambda>x. \<not> is_cleanup x"
  have l: "job_proceeds ?P (runLocalTests cfg w)"
    by (rule proceeds_mono [where P = "local_step cfg", OF not_cleanup_local runLocalTests_proceeds])
  have a: "job_proceeds ?P
             (q_then m
                (\<lambda>isTestPassed.
                   q_then (in_callback (runAppiumTests cfg w u))
                     (\<lambda>isAppiumTestPassed.
                        Q (isTestPassed = TEST_PASSED \<and> isAppiumTestPassed = TEST_PASSED))))"
    if "job_proceeds ?P m" for m u
    by (intro proceeds_then proceeds_Q proceeds_in_callback runAppiumTests_proceeds that)
  have b: "proceeds ?P s (did (Banner 4) s)" by (simp add: proceeds_did)
  have s1: "job_proceeds ?P (calls RunSauceTests (runSauceTests w))"
    by (rule proceeds_calls) simp
  show "proceeds ?P s (snd (runTests cfg w s))"
    using proceeds_trans [OF b job_proceedsD [OF a [OF l, where u = False],
                                              where s = "did (Banner 4) s"]]
          proceeds_trans [OF b job_proceedsD [OF a [OF s1, where u = True],
                                              where s = "did (Banner 4) s"]]
    by (simp add: runTests_def Let_def)
qed

lemma maybeStartServer_proceeds: "job_proceeds (\<lambda>x. \<not> is_cleanup x) (maybeStartServer cfg w)"
  by (simp add: maybeStartServer_def proceeds_calls proceeds_Q)

lemma configureAndRunTests_proceeds:
  "job_proceeds (\<lambda>x. \<not> is_cleanup x) (configureAndRunTests cfg w)"
proof -
  let ?P = "\<lambda>x. \<not> is_cleanup x"
  have "job_proceeds ?P (\<lambda>s. calls_sync WriteMedicJson (writeMedicJson w) (s\<lparr>server := True\<rparr>))"
  proof (rule job_proceedsI)
    fix s
    have "proceeds ?P (s\<lparr>server := True\<rparr>)
            (snd (calls_sync WriteMedicJson (writeMedicJson w) (s\<lparr>server := True\<rparr>)))"
      by (rule job_proceedsD [OF proceeds_calls_sync]) simp
    then show "proceeds ?P s (snd (calls_sync WriteMedicJson (writeMedicJson w) (s\<lparr>server := True\<rparr>)))"
      by (rule proceeds_trans [OF proceeds_field(1)])
  qed
  then show ?thesis
    by (simp add: configureAndRunTests_def proceeds_then runTests_proceeds)
qed

text \<open>The state the three phases leave: that of the first phase, followed by steps that
  are no cleanup.\<close>

lemma phases_proceeds:
  "proceeds (\<lambda>x. \<not> is_cleanup x) (snd (createAndPrepare cfg w s)) (snd (phases cfg w s))"
proof -
  let ?P = "\<lambda>x. \<not> is_cleanup x"
  obtain p1 s1 where c: "createAndPrepare cfg w s = (p1, s1)"
    by (cases "createAndPrepare cfg w s")
  have r: "job_proceeds ?P
             (q_then (\<lambda>u. maybeStartServer cfg w u) (\<lambda>u. configureAndRunTests cfg w))"
    by (intro proceeds_then maybeStartServer_proceeds configureAndRunTests_proceeds)
  show ?thesis
  proof (cases p1)
    case (Fulfilled u)
    then show ?thesis
      using c job_proceedsD [OF r, of s1]
      by (simp add: phases_def q_then_def Q_def)
  qed (use c in \<open>simp_all add: phases_def q_then_def Q_def proceeds_refl\<close>)
qed

lemma createAndPrepare_state:
  "tempFolder (snd (createAndPrepare cfg w s))
     = (case createTempProject w of Inl e \<Rightarrow> tempFolder s | Inr name \<Rightarrow> Some name)
   \<and> (\<exists>t. trace (snd (createAndPrepare cfg w s)) = trace s @ t
           \<and> list_all (\<lambda>x. \<not> is_cleanup x) t)"
  by (auto simp: createAndPrepare_def calls_def did_def split: sum.splits)

lemma phases_state:
  "tempFolder (snd (phases cfg w s))
     = (case createTempProject w of Inl e \<Rightarrow> tempFolder s | Inr name \<Rightarrow> Some name)
   \<and> (\<exists>t. trace (snd (phases cfg w s)) = trace s @ t \<and> list_all (\<lambda>x. \<not> is_cleanup x) t)"
  using phases_proceeds [of cfg w s] createAndPrepare_state [of cfg w s]
  by (auto simp: proceeds_def)

lemma guarded_phases_state: "snd (guarded_phases cfg w s) = snd (phases cfg w s)"
  by (simp add: guarded_phases_def q_catch_def q_timeout_def throw_def
           split: prod.splits promise.splits)

text \<open>What the guard makes of the three outcomes of the phases.\<close>

lemma guarded_phases_outcome:
  "fst (guarded_phases cfg w s)
     = (case fst (phases cfg w s) of
          Fulfilled b \<Rightarrow> Fulfilled b
        | Rejected e \<Rightarrow> Rejected (Wrapped e)
        | Pending \<Rightarrow> Rejected (Wrapped (TimedOut (getTimeout cfg))))"
  by (simp add: guarded_phases_def q_catch_def q_timeout_def throw_def
           split: prod.splits promise.splits)

text \<open>When the phases before it succeed, the chain is at \<^verbatim>\<open>runTests\<close>.\<close>

lemma phases_reach_runTests:
  assumes "createTempProject w = Inr name" and "prepareProjectToRunTests w = Fulfilled ()"
      and "wantMainTests cfg \<longrightarrow> startServer w = Fulfilled () \<and> writeMedicJson w = None"
  shows "phases cfg w s = runTests cfg w (tests_ready cfg name s)"
  using assms
  by (simp add: phases_def q_then_def Q_def createAndPrepare_def maybeStartServer_def
        configureAndRunTests_def calls_def calls_sync_def tests_ready_def Let_def did_def)

section \<open>The cleanup\<close>

lemma guarded_phases_settles: "fst (guarded_phases cfg w s) \<noteq> Pending"
  by (simp add: guarded_phases_outcome split: promise.splits)

text \<open>The two \<^verbatim>\<open>.fin\<close> callbacks: the steps they take and when they settle.\<close>

lemma collectDataAndCleanUp_steps:
  "\<exists>mid. trace (snd (collectDataAndCleanUp cfg w s)) = trace s @ Banner 6 # mid
         \<and> list_all is_first_fin mid"
  by (auto simp: collectDataAndCleanUp_def Let_def calls_def calls_sync_def did_def Q_def
        q_then_def q_fin_def q_catch_def collectDeviceLogs_def uninstallApp_def
        killEmulatorProcess_def
        split: option.splits promise.splits)

lemma collectDataAndCleanUp_keeps:
  "tempFolder (snd (collectDataAndCleanUp cfg w s)) = tempFolder s
   \<and> server (snd (collectDataAndCleanUp cfg w s)) = server s"
  by (auto simp: collectDataAndCleanUp_def Let_def calls_def calls_sync_def did_def Q_def
        q_then_def q_fin_def q_catch_def collectDeviceLogs_def uninstallApp_def
        killEmulatorProcess_def
        split: option.splits promise.splits)

lemma collectDataAndCleanUp_settles:
  "displaySauceDetails w \<noteq> Pending \<Longrightarrow> uninstallApp_r w \<noteq> Pending
     \<Longrightarrow> fst (collectDataAndCleanUp cfg w s) \<noteq> Pending"
  by (auto simp: collectDataAndCleanUp_def Let_def calls_def calls_sync_def did_def Q_def
        q_then_def q_fin_def q_catch_def collectDeviceLogs_def uninstallApp_def
        killEmulatorProcess_def
        split: option.splits promise.splits)

lemma cleanUpProject_steps:
  "\<exists>post. trace (snd (cleanUpProject cfg w s)) = trace s @ EnterCleanUpProject # post
          \<and> list_all is_second_fin post"
  by (auto simp: cleanUpProject_def calls_sync_def did_def q_then_def
        split: option.splits promise.splits)

lemma cleanUpProject_settles: "fst (cleanUpProject cfg w s) \<noteq> Pending"
  by (auto simp: cleanUpProject_def calls_sync_def did_def q_then_def
        split: option.splits promise.splits)

text \<open>The first callback on a local run that is no build, and \<^verbatim>\<open>cleanUpProject\<close>, when
  the temp folder exists.\<close>

lemma collectDataAndCleanUp_local:
  assumes "\<not> shouldUseSauce cfg" and "getAction cfg \<noteq> ''build''"
      and "tempFolder s = Some name" and "collectLogs w = None"
      and "uninstallApp_r w \<noteq> Pending"
  shows "collectDataAndCleanUp cfg w s =
           (if shouldCleanUpAfterRun cfg
            then (case paramedicKill w of None \<Rightarrow> Fulfilled () | Some e \<Rightarrow> Rejected e)
            else Fulfilled (),
            s\<lparr>trace := trace s @ [Banner 6, CollectLogs, UninstallApp]
                        @ (if shouldCleanUpAfterRun cfg then [ParamedicKill] else [])\<rparr>)"
  using assms
  by (cases "uninstallApp_r w")
     (auto simp: collectDataAndCleanUp_def Let_def calls_def calls_sync_def did_def Q_def
        q_then_def q_fin_def q_catch_def collectDeviceLogs_def uninstallApp_def
        killEmulatorProcess_def
        split: option.splits)

lemma collectDataAndCleanUp_exact:
  assumes "tempFolder s = Some name" and "collectLogs w = None"
      and "uninstallApp_r w \<noteq> Pending"
  shows "snd (collectDataAndCleanUp cfg w s) =
           s\<lparr>trace := trace s @ Banner 6
                       # (if shouldUseSauce cfg then [DisplaySauceDetails]
                          else if getAction cfg \<noteq> ''build''
                            then [CollectLogs, UninstallApp]
                                 @ (if shouldCleanUpAfterRun cfg then [ParamedicKill] else [])
                          else [])\<rparr>"
proof (cases "shouldUseSauce cfg")
  case True
  then show ?thesis by (simp add: collectDataAndCleanUp_def Let_def calls_def did_def)
next
  case False
  show ?thesis
  proof (cases "getAction cfg = ''build''")
    case True
    then show ?thesis using False by (simp add: collectDataAndCleanUp_def Let_def Q_def did_def)
  next
    case b: False
    show ?thesis
      using collectDataAndCleanUp_local [OF False b assms] False b by simp
  qed
qed

lemma cleanUpProject_with_folder:
  assumes "tempFolder s = Some name" and "server s \<longrightarrow> serverCleanUp w = None"
  shows "cleanUpProject cfg w s =
           (Fulfilled (),
            s\<lparr>trace := trace s @ EnterCleanUpProject # (if server s then [ServerCleanUp] else [])
                        @ (if shouldCleanUpAfterRun cfg then [Popd, Rm name] else [])\<rparr>)"
  using assms
  by (auto simp: cleanUpProject_def calls_sync_def did_def q_then_def)

text \<open>\<^verbatim>\<open>run\<close> once the configuration check has passed: the guarded phases, then the two
  callbacks, the second only when the first one's promise settles.\<close>

lemma run_after_check:
  assumes "checkConfig cfg0 w new_runner = (Inr cfg, s0)"
      and "guarded_phases cfg w s0 = (p, s1)"
      and "collectDataAndCleanUp cfg w s1 = (r1, s2)"
      and "cleanUpProject cfg w s2 = (r2, s3)"
  shows "run cfg0 w = (if r1 = Pending then (Inr Pending, s2) else (Inr (after_fins p r1 r2), s3))"
proof -
  have "p \<noteq> Pending" using guarded_phases_settles [of cfg w s0] assms(2) by simp
  then show ?thesis
    using assms
    by (cases p; cases r1; cases r2) (simp_all add: run_def q_fin_def after_fins_def)
qed

lemma checkConfig_state:
  "checkConfig cfg0 w s = (r, s0)
     \<Longrightarrow> s0 = (if shouldUseSauce cfg0 then (did (Banner 0) s)\<lparr>paramedicSauceLabs := True\<rparr>
               else did (Banner 0) s)"
  by (auto simp: checkConfig_def Let_def split: option.splits if_splits)

lemma not_cleanup_append:
  "list_all (\<lambda>x. \<not> is_cleanup x) xs \<Longrightarrow> list_all (\<lambda>x. \<not> is_cleanup x) ys
     \<Longrightarrow> list_all (\<lambda>x. \<not> is_cleanup x) (xs @ ys)"
  by simp

lemma settled_state:
  assumes "checkConfig cfg0 w new_runner = (Inr cfg, s0)"
  shows "tempFolder (snd (guarded_phases cfg w s0))
           = (case createTempProject w of Inl e \<Rightarrow> None | Inr name \<Rightarrow> Some name)
         \<and> list_all (\<lambda>x. \<not> is_cleanup x) (trace (snd (guarded_phases cfg w s0)))"
proof -
  have s0: "s0 = (if shouldUseSauce cfg0 then (did (Banner 0) new_runner)\<lparr>paramedicSauceLabs := True\<rparr>
                  else did (Banner 0) new_runner)"
    using assms by (rule checkConfig_state)
  obtain t where t: "trace (snd (phases cfg w s0)) = trace s0 @ t"
      "list_all (\<lambda>x. \<not> is_cleanup x) t"
    using phases_state [of cfg w s0] by blast
  have a: "list_all (\<lambda>x. \<not> is_cleanup x) (trace s0)" and b: "tempFolder s0 = None"
    by (simp_all add: s0 did_def new_runner_def)
  have "tempFolder (snd (phases cfg w s0))
          = (case createTempProject w of Inl e \<Rightarrow> None | Inr name \<Rightarrow> Some name)"
    using phases_state [of cfg w s0] b by (simp split: sum.splits)
  moreover have "list_all (\<lambda>x. \<not> is_cleanup x) (trace (snd (phases cfg w s0)))"
    using t a by simp
  ultimately show ?thesis by (simp add: guarded_phases_state)
qed

text \<open>When the temp project exists and no cleanup step fails, the outcome of the run is that
  of the guarded phases.\<close>

lemma run_outcome_when_cleanup_succeeds:
  assumes cc: "checkConfig cfg0 w new_runner = (Inr cfg, s0)"
      and n: "createTempProject w = Inr name"
      and ok: "displaySauceDetails w = Fulfilled ()" "collectLogs w = None"
              "uninstallApp_r w \<noteq> Pending" "paramedicKill w = None" "serverCleanUp w = None"
  shows "fst (run cfg0 w) = Inr (fst (guarded_phases cfg w s0))"
proof -
  obtain p s1 where g: "guarded_phases cfg w s0 = (p, s1)"
    by (cases "guarded_phases cfg w s0")
  obtain r1 s2 where c1: "collectDataAndCleanUp cfg w s1 = (r1, s2)"
    by (cases "collectDataAndCleanUp cfg w s1")
  obtain r2 s3 where c2: "cleanUpProject cfg w s2 = (r2, s3)"
    by (cases "cleanUpProject cfg w s2")
  have f: "tempFolder s1 = Some name"
    using settled_state [OF cc] g n by simp
  have "fst (collectDataAndCleanUp cfg w s1) = Fulfilled ()"
  proof (cases "shouldUseSauce cfg")
    case True
    then show ?thesis using ok by (simp add: collectDataAndCleanUp_def Let_def calls_def)
  next
    case False
    show ?thesis
    proof (cases "getAction cfg = ''build''")
      case True
      then show ?thesis using False by (simp add: collectDataAndCleanUp_def Let_def Q_def)
    next
      case b: False
      show ?thesis
        using collectDataAndCleanUp_local [OF False b f ok(2,3)] ok(4) by simp
    qed
  qed
  then have r1: "r1 = Fulfilled ()" using c1 by simp
  have f2: "tempFolder s2 = Some name"
    using collectDataAndCleanUp_keeps [of cfg w s1] c1 f by simp
  have r2: "r2 = Fulfilled ()"
    using cleanUpProject_with_folder [OF f2, of w cfg] ok(5) c2 by simp
  show ?thesis
    using run_after_check [OF cc g c1 c2] g by (simp add: r1 r2 after_fins_def)
qed

text \<open>What \<^verbatim>\<open>run\<close> makes of the verdict of \<^verbatim>\<open>runTests\<close>, when the phases before it
  succeed and no cleanup step fails.\<close>

lemma run_outcome_from_runTests:
  assumes "checkConfig cfg0 w new_runner = (Inr cfg, s0)"
      and "createTempProject w = Inr name" and "prepareProjectToRunTests w = Fulfilled ()"
      and "wantMainTests cfg \<longrightarrow> startServer w = Fulfilled () \<and> writeMedicJson w = None"
      and "displaySauceDetails w = Fulfilled ()" and "collectLogs w = None"
      and "uninstallApp_r w \<noteq> Pending" and "paramedicKill w = None" and "serverCleanUp w = None"
  shows "fst (run cfg0 w)
           = Inr (case fst (runTests cfg w (tests_ready cfg name s0)) of
                    Fulfilled b \<Rightarrow> Fulfilled b
                  | Rejected e \<Rightarrow> Rejected (Wrapped e)
                  | Pending \<Rightarrow> Rejected (Wrapped (TimedOut (getTimeout cfg))))"
  using run_outcome_when_cleanup_succeeds [OF assms(1,2,5,6,7,8,9)]
        phases_reach_runTests [OF assms(2,3,4), of s0]
  by (simp add: guarded_phases_outcome)


lemma filter_none: "list_all (\<lambda>x. \<not> P x) xs \<Longrightarrow> filter P xs = []"
  by (simp add: list_all_iff filter_empty_conv)

text \<open>
  C1 (as amended). For every run whose configuration check has passed and whose temp
  project was created, whether the phases resolve, reject or time out, and provided log
  collection and the server's clean-up return and the promises of the uninstall and of the
  device farm's details settle: every step of the cleanup is executed, exactly once and
  after all the steps that are no cleanup. These steps are, in this order: the banner
  "6."; on the device farm the display of its details, else, unless the action is
  "build", log collection, the uninstall and (with the flag "clean up after run") the
  emulator kill; then \<^verbatim>\<open>cleanUpProject\<close>: the server's clean-up if a server was started
  and (with the same flag) the deletion of the temp project. When moreover the promise of
  the details is fulfilled and the kill does not throw, the run resolves with the verdict
  of the phases or rejects with the wrapped error: \<^verbatim>\<open>new Error(e)\<close> for a rejection
  \<open>e\<close>, and the wrapped timeout error when the phases are still pending at the deadline.
\<close>

theorem cleanup_once_after_check:
  assumes "checkConfig cfg0 w new_runner = (Inr cfg, s0)"
      and "createTempProject w = Inr name"
      and "collectLogs w = None" and "uninstallApp_r w \<noteq> Pending"
      and "displaySauceDetails w \<noteq> Pending" and "serverCleanUp w = None"
  shows "\<exists>p s' pre.
           run cfg0 w = (Inr p, s')
         \<and> trace s' = pre
             @ Banner 6
             # (if shouldUseSauce cfg then [DisplaySauceDetails]
                else if getAction cfg \<noteq> ''build''
                  then [CollectLogs, UninstallApp]
                       @ (if shouldCleanUpAfterRun cfg then [ParamedicKill] else [])
                else [])
             @ EnterCleanUpProject
             # (if server s' then [ServerCleanUp] else [])
             @ (if shouldCleanUpAfterRun cfg then [Popd, Rm name] else [])
         \<and> list_all (\<lambda>x. \<not> is_cleanup x) pre
         \<and> distinct (filter is_cleanup (trace s'))
         \<and> (displaySauceDetails w = Fulfilled () \<and> paramedicKill w = None
              \<longrightarrow> p = (case fst (phases cfg w s0) of
                         Fulfilled b \<Rightarrow> Fulfilled b
                       | Rejected e \<Rightarrow> Rejected (Wrapped e)
                       | Pending \<Rightarrow> Rejected (Wrapped (TimedOut (getTimeout cfg)))))"
proof -
  let ?first = "if shouldUseSauce cfg then [DisplaySauceDetails]
                else if getAction cfg \<noteq> ''build''
                  then [CollectLogs, UninstallApp]
                       @ (if shouldCleanUpAfterRun cfg then [ParamedicKill] else [])
                else []"
  obtain p s1 where g: "guarded_phases cfg w s0 = (p, s1)"
    by (cases "guarded_phases cfg w s0")
  obtain r1 s2 where c1: "collectDataAndCleanUp cfg w s1 = (r1, s2)"
    by (cases "collectDataAndCleanUp cfg w s1")
  have f: "tempFolder s1 = Some name" and pre: "list_all (\<lambda>x. \<not> is_cleanup x) (trace s1)"
    using settled_state [OF assms(1)] g assms(2) by simp_all
  have s2: "s2 = s1\<lparr>trace := trace s1 @ Banner 6 # ?first\<rparr>"
    using collectDataAndCleanUp_exact [OF f assms(3,4), of cfg] c1 by simp
  have np: "r1 \<noteq> Pending"
    using collectDataAndCleanUp_settles [OF assms(5,4), of cfg s1] c1 by simp
  have f2: "tempFolder s2 = Some name" using f by (simp add: s2)
  define s3 where "s3 = s2\<lparr>trace := trace s2 @ EnterCleanUpProject
                        # (if server s2 then [ServerCleanUp] else [])
                        @ (if shouldCleanUpAfterRun cfg then [Popd, Rm name] else [])\<rparr>"
  have c2: "cleanUpProject cfg w s2 = (Fulfilled (), s3)"
    using cleanUpProject_with_folder [OF f2, of w cfg] assms(6) by (simp add: s3_def)
  have r: "run cfg0 w = (Inr (after_fins p r1 (Fulfilled ())), s3)"
    using run_after_check [OF assms(1) g c1 c2] np by simp
  have t: "trace s3 = trace s1 @ Banner 6 # ?first
                        @ EnterCleanUpProject
                        # (if server s3 then [ServerCleanUp] else [])
                        @ (if shouldCleanUpAfterRun cfg then [Popd, Rm name] else [])"
    by (simp add: s3_def s2)
  have d: "distinct (filter is_cleanup (trace s3))"
    by (cases "shouldUseSauce cfg"; cases "getAction cfg = ''build''";
        cases "shouldCleanUpAfterRun cfg"; cases "server s3")
       (simp_all add: t filter_none [OF pre])
  have v: "after_fins p r1 (Fulfilled ())
             = (case fst (phases cfg w s0) of
                  Fulfilled b \<Rightarrow> Fulfilled b
                | Rejected e \<Rightarrow> Rejected (Wrapped e)
                | Pending \<Rightarrow> Rejected (Wrapped (TimedOut (getTimeout cfg))))"
    if ok: "displaySauceDetails w = Fulfilled () \<and> paramedicKill w = None"
  proof -
    have "fst (run cfg0 w) = Inr (fst (guarded_phases cfg w s0))"
      using run_outcome_when_cleanup_succeeds [OF assms(1,2) _ assms(3,4) _ assms(6)] ok
      by simp
    then show ?thesis using r by (simp add: guarded_phases_outcome)
  qed
  show ?thesis using r t pre d v by blast
qed

section \<open>The cleanup on the example runs\<close>

lemmas more_example_defs =
  keep_config_def no_tests_config_def uninstall_failing_world_def silent_world_def
  disconnecting_world_def logs_failing_world_def hanging_uninstall_world_def
  kill_failing_world_def server_failing_world_def sauce_config_def
  hanging_details_world_def failing_details_world_def no_project_world_def

lemma example_checkConfig:
  "checkConfig example_config w new_runner = (Inr example_config, did (Banner 0) new_runner)"
  "checkConfig keep_config w new_runner = (Inr keep_config, did (Banner 0) new_runner)"
  "checkConfig sauce_config example_world new_runner
     = (Inr sauce_config, (did (Banner 0) new_runner)\<lparr>paramedicSauceLabs := True\<rparr>)"
  by (simp_all add: checkConfig_def example_defs more_example_defs)



theorem cleanup_once_after_check_witness:
  "fst (run example_config example_world) = Inr (Fulfilled True)
   \<and> filter is_cleanup (trace (snd (run example_config example_world)))
       = [Banner 6, CollectLogs, UninstallApp, ParamedicKill, EnterCleanUpProject,
          ServerCleanUp, Popd, Rm ''/tmp/tmp-1'']
   \<and> fst (run example_config failing_world) = Inr (Rejected (Wrapped (CommandFailed 1)))
   \<and> filter is_cleanup (trace (snd (run example_config failing_world)))
       = [Banner 6, CollectLogs, UninstallApp, ParamedicKill, EnterCleanUpProject,
          ServerCleanUp, Popd, Rm ''/tmp/tmp-1'']
   \<and> fst (run example_config silent_world) = Inr (Rejected (Wrapped (TimedOut 3600000)))
   \<and> filter is_cleanup (trace (snd (run example_config silent_world)))
       = [Banner 6, CollectLogs, UninstallApp, ParamedicKill, EnterCleanUpProject,
          ServerCleanUp, Popd, Rm ''/tmp/tmp-1'']
   \<and> fst (run sauce_config example_world) = Inr (Fulfilled True)
   \<and> filter is_cleanup (trace (snd (run sauce_config example_world)))
       = [Banner 6, DisplaySauceDetails, EnterCleanUpProject, ServerCleanUp, Popd,
          Rm ''/tmp/tmp-1'']"
proof -
  have k: "\<not> shouldUseSauce example_config" "getAction example_config \<noteq> ''build''"
          "shouldCleanUpAfterRun example_config" "getTimeout example_config = 3600000"
          "shouldUseSauce sauce_config" "shouldCleanUpAfterRun sauce_config"
    by (simp_all add: example_defs more_example_defs)
  have local_run:
    "fst (run example_config w) = Inr q
     \<and> filter is_cleanup (trace (snd (run example_config w)))
         = [Banner 6, CollectLogs, UninstallApp, ParamedicKill, EnterCleanUpProject,
            ServerCleanUp, Popd, Rm ''/tmp/tmp-1'']"
    if h: "createTempProject w = Inr ''/tmp/tmp-1''" "collectLogs w = None"
          "uninstallApp_r w \<noteq> Pending" "displaySauceDetails w \<noteq> Pending"
          "serverCleanUp w = None"
      and ok: "displaySauceDetails w = Fulfilled ()" "paramedicKill w = None"
      and srv: "server (snd (run example_config w))"
      and ph: "(case fst (phases example_config w (did (Banner 0) new_runner)) of
                  Fulfilled b \<Rightarrow> Fulfilled b
                | Rejected e \<Rightarrow> Rejected (Wrapped e)
                | Pending \<Rightarrow> Rejected (Wrapped (TimedOut (getTimeout example_config)))) = q"
    for w q
  proof -
    obtain p s' pre where a:
      "run example_config w = (Inr p, s')"
      "trace s' = pre
         @ Banner 6
         # (if shouldUseSauce example_config then [DisplaySauceDetails]
            else if getAction example_config \<noteq> ''build''
              then [CollectLogs, UninstallApp]
                   @ (if shouldCleanUpAfterRun example_config then [ParamedicKill] else [])
            else [])
         @ EnterCleanUpProject
         # (if server s' then [ServerCleanUp] else [])
         @ (if shouldCleanUpAfterRun example_config then [Popd, Rm ''/tmp/tmp-1''] else [])"
      "list_all (\<lambda>x. \<not> is_cleanup x) pre"
      "displaySauceDetails w = Fulfilled () \<and> paramedicKill w = None
         \<longrightarrow> p = (case fst (phases example_config w (did (Banner 0) new_runner)) of
                    Fulfilled b \<Rightarrow> Fulfilled b
                  | Rejected e \<Rightarrow> Rejected (Wrapped e)
                  | Pending \<Rightarrow> Rejected (Wrapped (TimedOut (getTimeout example_config))))"
      using cleanup_once_after_check [OF example_checkConfig(1) h] by blast
    have 1: "fst (run example_config w) = Inr q" using a(1,4) ok ph by simp
    have 2: "filter is_cleanup (trace (snd (run example_config w)))
         = [Banner 6, CollectLogs, UninstallApp, ParamedicKill, EnterCleanUpProject,
            ServerCleanUp, Popd, Rm ''/tmp/tmp-1'']"
      using a(1,2) srv k(1,2,3) filter_none [OF a(3)] by simp
    show ?thesis using 1 2 by simp
  qed
  have h: "createTempProject w = Inr ''/tmp/tmp-1'' \<and> collectLogs w = None
           \<and> uninstallApp_r w \<noteq> Pending \<and> displaySauceDetails w \<noteq> Pending
           \<and> serverCleanUp w = None \<and> displaySauceDetails w = Fulfilled ()
           \<and> paramedicKill w = None"
    if "w = example_world \<or> w = failing_world \<or> w = silent_world" for w
    using that by (auto simp: example_defs more_example_defs)
  have srv: "server (snd (run example_config example_world))"
            "server (snd (run example_config failing_world))"
            "server (snd (run example_config silent_world))"
            "server (snd (run sauce_config example_world))"
    by (simp_all add: run_defs example_defs more_example_defs sublist_code)
  have ph: "fst (phases example_config example_world (did (Banner 0) new_runner)) = Fulfilled True"
           "fst (phases example_config failing_world (did (Banner 0) new_runner))
              = Rejected (CommandFailed 1)"
           "fst (phases example_config silent_world (did (Banner 0) new_runner)) = Pending"
           "fst (phases sauce_config example_world
                   ((did (Banner 0) new_runner)\<lparr>paramedicSauceLabs := True\<rparr>)) = Fulfilled True"
    by (simp_all add: run_defs example_defs more_example_defs sublist_code)
  have 1: "fst (run example_config example_world) = Inr (Fulfilled True)
     \<and> filter is_cleanup (trace (snd (run example_config example_world)))
         = [Banner 6, CollectLogs, UninstallApp, ParamedicKill, EnterCleanUpProject,
            ServerCleanUp, Popd, Rm ''/tmp/tmp-1'']"
    using h [of example_world] by (intro local_run srv(1)) (simp_all add: ph(1))
  have 2: "fst (run example_config failing_world) = Inr (Rejected (Wrapped (CommandFailed 1)))
     \<and> filter is_cleanup (trace (snd (run example_config failing_world)))
         = [Banner 6, CollectLogs, UninstallApp, ParamedicKill, EnterCleanUpProject,
            ServerCleanUp, Popd, Rm ''/tmp/tmp-1'']"
    using h [of failing_world] by (intro local_run srv(2)) (simp_all add: ph(2))
  have 3: "fst (run example_config silent_world) = Inr (Rejected (Wrapped (TimedOut 3600000)))
     \<and> filter is_cleanup (trace (snd (run example_config silent_world)))
         = [Banner 6, CollectLogs, UninstallApp, ParamedicKill, EnterCleanUpProject,
            ServerCleanUp, Popd, Rm ''/tmp/tmp-1'']"
    using h [of silent_world] by (intro local_run srv(3)) (simp_all add: ph(3) k(4))
  obtain p s' pre where a:
    "run sauce_config example_world = (Inr p, s')"
    "trace s' = pre
       @ Banner 6
       # (if shouldUseSauce sauce_config then [DisplaySauceDetails]
          else if getAction sauce_config \<noteq> ''build''
            then [CollectLogs, UninstallApp]
                 @ (if shouldCleanUpAfterRun sauce_config then [ParamedicKill] else [])
          else [])
       @ EnterCleanUpProject
       # (if server s' then [ServerCleanUp] else [])
       @ (if shouldCleanUpAfterRun sauce_config then [Popd, Rm ''/tmp/tmp-1''] else [])"
    "list_all (\<lambda>x. \<not> is_cleanup x) pre"
    "displaySauceDetails example_world = Fulfilled () \<and> paramedicKill example_world = None
       \<longrightarrow> p = (case fst (phases sauce_config example_world
                             ((did (Banner 0) new_runner)\<lparr>paramedicSauceLabs := True\<rparr>)) of
                  Fulfilled b \<Rightarrow> Fulfilled b
                | Rejected e \<Rightarrow> Rejected (Wrapped e)
                | Pending \<Rightarrow> Rejected (Wrapped (TimedOut (getTimeout sauce_config))))"
    using cleanup_once_after_check [OF example_checkConfig(3), of "''/tmp/tmp-1''"]
          h [of example_world]
    by auto
  have 4: "fst (run sauce_config example_world) = Inr (Fulfilled True)"
    using a(1,4) h [of example_world] ph(4) by simp
  have 5: "filter is_cleanup (trace (snd (run sauce_config example_world)))
       = [Banner 6, DisplaySauceDetails, EnterCleanUpProject, ServerCleanUp, Popd,
          Rm ''/tmp/tmp-1'']"
    using a(1,2) srv(4) k(5,6) filter_none [OF a(3)] by simp
  show ?thesis using 1 2 3 4 5 by simp
qed

text \<open>
  C1 as stated fails in several ways. When both kinds of tests are skipped,
  \<^verbatim>\<open>checkConfig\<close> throws before the promise chain exists: the error is not wrapped and
  no cleanup runs. When the temp project cannot be created, \<^verbatim>\<open>tempFolder\<close> is still
  \<^verbatim>\<open>null\<close> in the cleanup: \<^verbatim>\<open>collectDeviceLogs\<close> and \<^verbatim>\<open>cleanUpProject\<close> fail on
  \<^verbatim>\<open>this.tempFolder.name\<close>, nothing is collected, uninstalled, killed or deleted, and the
  run rejects with that TypeError, unwrapped. An error of a cleanup step replaces the
  outcome of the run, unwrapped, although the tests have passed: that of log collection
  (and then no uninstall and no kill follows), of the emulator kill, or of the server's
  clean-up (and then nothing is deleted), or the rejection of the device farm's details.
  And when the promise of the uninstall, or of the device farm's details, never settles,
  neither does the run, and \<^verbatim>\<open>cleanUpProject\<close> is never called.
\<close>

theorem cleanup_missing_or_error_unwrapped_counterexample:
  "run no_tests_config example_world = (Inl NoTestsToRun, new_runner\<lparr>trace := [Banner 0]\<rparr>)
   \<and> run example_config no_project_world
       = (Inr (Rejected NullTempFolder),
          new_runner\<lparr>trace := [Banner 0, CreateTempProject, Banner 6, EnterCleanUpProject]\<rparr>)
   \<and> fst (run example_config logs_failing_world) = Inr (Rejected (Failure ''adb logcat failed''))
   \<and> filter is_first_fin (trace (snd (run example_config logs_failing_world))) = [CollectLogs]
   \<and> fst (run example_config kill_failing_world) = Inr (Rejected (Failure ''kill failed''))
   \<and> fst (run example_config server_failing_world) = Inr (Rejected (Failure ''server is gone''))
   \<and> filter is_second_fin (trace (snd (run example_config server_failing_world)))
       = [ServerCleanUp]
   \<and> fst (run example_config hanging_uninstall_world) = Inr Pending
   \<and> EnterCleanUpProject \<notin> set (trace (snd (run example_config hanging_uninstall_world)))
   \<and> fst (run sauce_config hanging_details_world) = Inr Pending
   \<and> filter is_cleanup (trace (snd (run sauce_config hanging_details_world)))
       = [Banner 6, DisplaySauceDetails]
   \<and> fst (run sauce_config failing_details_world) = Inr (Rejected (Failure ''no job details''))"
proof -
  have 1: "run no_tests_config example_world
             = (Inl NoTestsToRun, new_runner\<lparr>trace := [Banner 0]\<rparr>)"
    by (simp add: run_defs example_defs more_example_defs)
  have 2: "run example_config no_project_world
       = (Inr (Rejected NullTempFolder),
          new_runner\<lparr>trace := [Banner 0, CreateTempProject, Banner 6, EnterCleanUpProject]\<rparr>)"
    by (simp add: run_defs example_defs more_example_defs)
  have 3: "fst (run example_config logs_failing_world)
             = Inr (Rejected (Failure ''adb logcat failed''))
   \<and> filter is_first_fin (trace (snd (run example_config logs_failing_world))) = [CollectLogs]"
    by (simp add: run_defs example_defs more_example_defs sublist_code)
  have 4: "fst (run example_config kill_failing_world) = Inr (Rejected (Failure ''kill failed''))"
    by (simp add: run_defs example_defs more_example_defs sublist_code)
  have 5: "fst (run example_config server_failing_world)
             = Inr (Rejected (Failure ''server is gone''))
   \<and> filter is_second_fin (trace (snd (run example_config server_failing_world)))
       = [ServerCleanUp]"
    by (simp add: run_defs example_defs more_example_defs sublist_code)
  have 6: "fst (run example_config hanging_uninstall_world) = Inr Pending
   \<and> EnterCleanUpProject \<notin> set (trace (snd (run example_config hanging_uninstall_world)))"
    by (simp add: run_defs example_defs more_example_defs sublist_code)
  have 7: "fst (run sauce_config hanging_details_world) = Inr Pending
   \<and> filter is_cleanup (trace (snd (run sauce_config hanging_details_world)))
       = [Banner 6, DisplaySauceDetails]"
    by (simp add: run_defs example_defs more_example_defs sublist_code)
  have 8: "fst (run sauce_config failing_details_world)
             = Inr (Rejected (Failure ''no job details''))"
    by (simp add: run_defs example_defs more_example_defs sublist_code)
  show ?thesis using 1 2 3 4 5 6 7 8 by simp
qed

section \<open>The disconnect and the race of the two waits\<close>

text \<open>The race of \<^verbatim>\<open>runLocalTests\<close> never ends with the error of a disconnect: the
  rejection of \<^verbatim>\<open>waitForTests\<close> has no handler there.\<close>

lemma race_on_keeps_clear:
  assumes "outer r \<noteq> Rejected DeviceDisconnected"
      and "connection r \<noteq> Rejected DeviceDisconnected"
  shows "outer (race_on e r) \<noteq> Rejected DeviceDisconnected
         \<and> connection (race_on e r) \<noteq> Rejected DeviceDisconnected"
proof -
  have c: "waitForConnection_on e (connection r) \<noteq> Rejected DeviceDisconnected"
    using assms(2) by (cases e; cases "connection r") auto
  have r: "reject x (outer r) \<noteq> Rejected DeviceDisconnected" if "x \<noteq> DeviceDisconnected" for x
    using assms(1) that by (cases "outer r") auto
  have o1: "(case waitForConnection_on e (connection r) of
               Rejected err \<Rightarrow> reject err (outer r) | _ \<Rightarrow> outer r)
              \<noteq> Rejected DeviceDisconnected"
    using c assms(1) r by (auto split: promise.splits)
  have v: "resolve b p \<noteq> Rejected DeviceDisconnected" if "p \<noteq> Rejected DeviceDisconnected"
    for b :: bool and p
    using that by (cases p) auto
  show ?thesis
    using c o1 v by (auto simp: race_on_def Let_def split: promise.splits)
qed

lemma race_never_reports_disconnect: "waitForTestResult evs \<noteq> Rejected DeviceDisconnected"
proof -
  have "outer (foldl (\<lambda>r e. race_on e r) r evs) \<noteq> Rejected DeviceDisconnected
        \<and> connection (foldl (\<lambda>r e. race_on e r) r evs) \<noteq> Rejected DeviceDisconnected"
    if "outer r \<noteq> Rejected DeviceDisconnected" "connection r \<noteq> Rejected DeviceDisconnected"
    for r
    using that
  proof (induction evs arbitrary: r)
    case Nil
    then show ?case by simp
  next
    case (Cons e evs)
    show ?case
      using Cons.IH [of "race_on e r"] race_on_keeps_clear [OF Cons.prems] by simp
  qed
  then show ?thesis by (simp add: waitForTestResult_def race_start_def)
qed

text \<open>
  C4 does not hold of the main-test wait. \<^verbatim>\<open>waitForTests\<close> builds the error "Device is
  disconnected before passing the tests" and rejects its own promise with it, but the
  race that \<^verbatim>\<open>runLocalTests\<close> waits for attaches only \<^verbatim>\<open>.then(resolve)\<close> to that
  promise, while the sibling \<^verbatim>\<open>waitForConnection().catch(reject)\<close> forwards its
  rejection. So a \<^verbatim>\<open>disconnect\<close> delivered before \<^verbatim>\<open>jasmineDone\<close> leaves the race
  pending, a \<^verbatim>\<open>jasmineDone\<close> that follows no longer resolves it, and whatever the
  channel delivers the race never ends with the error of the disconnect: it ends with
  the error of the connection timer if that expires with no device connected, and
  otherwise the run ends with the wrapped timeout error. A \<^verbatim>\<open>disconnect\<close> delivered
  after the verdict leaves the verdict as it is, as C4 says.
\<close>

theorem disconnect_never_settles_the_race:
  "waitForTests [OtherEvent ''deviceInfo'', Disconnect] = Rejected DeviceDisconnected
   \<and> waitForTestResult [OtherEvent ''deviceInfo'', Disconnect] = Pending
   \<and> waitForTestResult [OtherEvent ''deviceInfo'', Disconnect,
                         JasmineDone \<lparr>specResults = \<lparr>specFailed = 0\<rparr>\<rparr>] = Pending
   \<and> waitForTestResult [OtherEvent ''deviceInfo'', Disconnect, ConnectionTimer False,
                         TestsTimer False] = Rejected WaitForConnectionNotConnected
   \<and> waitForTestResult evs \<noteq> Rejected DeviceDisconnected
   \<and> waitForTestResult [JasmineDone \<lparr>specResults = \<lparr>specFailed = 2\<rparr>\<rparr>, Disconnect]
       = Fulfilled False
   \<and> waitForTests (channel disconnecting_world) = Rejected DeviceDisconnected
   \<and> fst (run example_config disconnecting_world)
       = Inr (Rejected (Wrapped (TimedOut 3600000)))"
proof -
  have a: "waitForTests [OtherEvent ''deviceInfo'', Disconnect] = Rejected DeviceDisconnected"
          "waitForTests (channel disconnecting_world) = Rejected DeviceDisconnected"
    by (simp_all add: waitForTests_def example_defs more_example_defs)
  have b: "waitForTestResult [OtherEvent ''deviceInfo'', Disconnect] = Pending"
          "waitForTestResult [OtherEvent ''deviceInfo'', Disconnect,
                              JasmineDone \<lparr>specResults = \<lparr>specFailed = 0\<rparr>\<rparr>] = Pending"
          "waitForTestResult [OtherEvent ''deviceInfo'', Disconnect, ConnectionTimer False,
                              TestsTimer False] = Rejected WaitForConnectionNotConnected"
          "waitForTestResult [JasmineDone \<lparr>specResults = \<lparr>specFailed = 2\<rparr>\<rparr>, Disconnect]
             = Fulfilled False"
    by (simp_all add: waitForTestResult_def race_on_def race_start_def Let_def)
  have c: "fst (run example_config disconnecting_world)
             = Inr (Rejected (Wrapped (TimedOut 3600000)))"
    by (simp add: run_defs example_defs more_example_defs sublist_code)
  show ?thesis using a b c race_never_reports_disconnect by simp
qed

end
